theory Spec2Isabelle
  imports Complex_Main "HOL-Library.AList"
begin

section \<open>Python values\<close>

text \<open>
  A Python \<open>str\<close> is a sequence of Unicode code points; it is modelled as a list of
  natural numbers, one per code point.  \<open>str\<close> embeds an ASCII literal.
\<close>

type_synonym pystr = "nat list"

definition str :: "string \<Rightarrow> pystr" where
  "str = map of_char"

text \<open>\<open>str.isspace\<close> for one code point: the table of CPython's \<open>_PyUnicode_IsWhitespace\<close>.\<close>

definition isspace :: "nat \<Rightarrow> bool" where
  "isspace c \<longleftrightarrow>
     (9 \<le> c \<and> c \<le> 13) \<or> (28 \<le> c \<and> c \<le> 32) \<or> c = 133 \<or> c = 160 \<or> c = 5760 \<or>
     (8192 \<le> c \<and> c \<le> 8202) \<or> c = 8232 \<or> c = 8233 \<or> c = 8239 \<or> c = 8287 \<or> c = 12288"

text \<open>\<open>s.strip()\<close>: leading and trailing whitespace removed.\<close>

definition strip :: "pystr \<Rightarrow> pystr" where
  "strip s = rev (dropWhile isspace (rev (dropWhile isspace s)))"

text \<open>
  A Python \<open>float\<close> as the \<open>json\<close> module produces it: a finite value (the rational
  number it denotes), an infinity or NaN.
\<close>

datatype pyfloat = Finite rat | PosInf | NegInf | NaN

text \<open>
  What \<open>json.load\<close> returns and \<open>json.dump\<close> accepts.  A \<open>dict\<close> is an association
  list in insertion order; lookup is \<open>map_of\<close> and assignment is \<open>AList.update\<close>
  (an existing key keeps its place, a new key goes to the end), as for Python's dict.
  The keys of a dict are distinct: of equal keys in a document \<open>json.load\<close> keeps the
  last, and a document is represented by the value it parses to.
\<close>

datatype json =
    JNull
  | JBool bool
  | JInt int
  | JFloat pyfloat
  | JStr pystr
  | JArr "json list"
  | JObj "(pystr \<times> json) list"

type_synonym pydict = "(pystr \<times> json) list"

text \<open>
  The exception classes that can arise in the modelled code.  All of them derive from
  \<open>Exception\<close>; \<open>JSONDecodeError\<close> is the only one the handler
  \<open>except json.JSONDecodeError\<close> selects.
\<close>

datatype exn =
    OSError
  | FileNotFoundError
  | FileExistsError
  | IsADirectoryError
  | JSONDecodeError
  | UnicodeDecodeError
  | UnicodeEncodeError
  | KeyError
  | TypeError
  | ValueError
  | OverflowError

subsection \<open>The builtin \<open>int\<close>\<close>

text \<open>
  What the interpreter brings to the conversions between \<open>int\<close> and \<open>str\<close>: the
  decimal digit value that its Unicode database gives to a code point
  (\<open>Py_UNICODE_TODECIMAL\<close>; the database depends on the version of the interpreter), and
  \<open>sys.get_int_max_str_digits()\<close>, the limit on the number of digits, \<open>0\<close> when there
  is none.  CPython applies the limit only above 640 digits.
\<close>

record interp =
  unicode_decimal :: "nat \<Rightarrow> nat option"
  max_str_digits :: nat

text \<open>
  The value of a code point as a decimal digit: the ASCII digits directly, no other ASCII
  character, and beyond ASCII what the Unicode database says.
\<close>

definition decimal_value :: "interp \<Rightarrow> nat \<Rightarrow> nat option" where
  "decimal_value ip c =
     (if 48 \<le> c \<and> c \<le> 57 then Some (c - 48)
      else if c < 128 then None
      else unicode_decimal ip c)"

text \<open>
  The digit part of an integer literal: digits, with single underscores allowed between
  two digits.
\<close>

fun digits_ok :: "interp \<Rightarrow> pystr \<Rightarrow> bool" where
  "digits_ok ip [] = False"
| "digits_ok ip [c] = (decimal_value ip c \<noteq> None)"
| "digits_ok ip (c # d # cs) =
     (if decimal_value ip c \<noteq> None
      then (if d = 95 then digits_ok ip cs else digits_ok ip (d # cs))
      else False)"

text \<open>The digits of a literal, underscores left out, and the number they denote.\<close>

definition digit_values :: "interp \<Rightarrow> pystr \<Rightarrow> nat list" where
  "digit_values ip ds = List.map_filter (decimal_value ip) ds"

definition digits_value :: "nat list \<Rightarrow> int" where
  "digits_value vs = foldl (\<lambda>acc v. 10 * acc + int v) 0 vs"

definition too_many_digits :: "interp \<Rightarrow> nat \<Rightarrow> bool" where
  "too_many_digits ip n \<longleftrightarrow> 640 < n \<and> 0 < max_str_digits ip \<and> max_str_digits ip < n"

text \<open>
  Whitespace that \<open>int\<close> skips around a literal: ASCII 9 to 13 and 32, and every
  non-ASCII \<open>isspace\<close> code point (CPython maps those to a blank first); the separators
  28 to 31 are not skipped.
\<close>

definition int_space :: "nat \<Rightarrow> bool" where
  "int_space c \<longleftrightarrow> isspace c \<and> \<not> (28 \<le> c \<and> c \<le> 31)"

text \<open>
  \<open>int(s)\<close> for a \<open>str\<close>, base 10: optional surrounding whitespace, optional sign,
  digits of any script.  A literal with more digits than the limit allows (leading zeros
  count, underscores do not) raises \<open>ValueError\<close>, as a malformed one does.
\<close>

definition int_of_str :: "interp \<Rightarrow> pystr \<Rightarrow> exn + int" where
  "int_of_str ip s =
     (let body = rev (dropWhile int_space (rev (dropWhile int_space s)));
          neg = (body \<noteq> [] \<and> hd body = 45);
          ds = (if body \<noteq> [] \<and> (hd body = 45 \<or> hd body = 43) then tl body else body);
          vs = digit_values ip ds
      in if \<not> digits_ok ip ds then Inl ValueError
         else if too_many_digits ip (length vs) then Inl ValueError
         else Inr (if neg then - digits_value vs else digits_value vs))"

text \<open>
  \<open>str(n)\<close> and \<open>repr(n)\<close> for an \<open>int\<close> raise \<open>ValueError\<close> when \<open>n\<close> has more decimal
  digits than the limit allows; CPython checks only when digits and sign together take
  more than 640 characters.
\<close>

definition int_str_error :: "interp \<Rightarrow> int \<Rightarrow> bool" where
  "int_str_error ip n \<longleftrightarrow>
     0 < max_str_digits ip \<and> 10 ^ max_str_digits ip \<le> \<bar>n\<bar> \<and>
     (if n < 0 then 10 ^ 639 \<le> \<bar>n\<bar> else 10 ^ 640 \<le> n)"

text \<open>\<open>int(x)\<close> for a float: truncation towards zero; NaN and the infinities raise.\<close>

definition int_of_float :: "pyfloat \<Rightarrow> exn + int" where
  "int_of_float f =
     (case f of
        Finite r \<Rightarrow> Inr (if 0 \<le> r then \<lfloor>r\<rfloor> else \<lceil>r\<rceil>)
      | PosInf \<Rightarrow> Inl OverflowError
      | NegInf \<Rightarrow> Inl OverflowError
      | NaN \<Rightarrow> Inl ValueError)"

text \<open>\<open>int(v)\<close> for a value that came out of a JSON document.\<close>

definition py_int :: "interp \<Rightarrow> json \<Rightarrow> exn + int" where
  "py_int ip v =
     (case v of
        JInt n \<Rightarrow> Inr n
      | JBool b \<Rightarrow> Inr (if b then 1 else 0)
      | JFloat f \<Rightarrow> int_of_float f
      | JStr s \<Rightarrow> int_of_str ip s
      | JNull \<Rightarrow> Inl TypeError
      | JArr xs \<Rightarrow> Inl TypeError
      | JObj d \<Rightarrow> Inl TypeError)"

text \<open>\<open>t[k]\<close> with a string key \<open>k\<close>: only a dict can be subscripted that way.\<close>

definition subscript :: "json \<Rightarrow> pystr \<Rightarrow> exn + json" where
  "subscript t k =
     (case t of
        JObj d \<Rightarrow> (case map_of d k of None \<Rightarrow> Inl KeyError | Some v \<Rightarrow> Inr v)
      | _ \<Rightarrow> Inl TypeError)"

text \<open>\<open>d[k]\<close> on a dict with keys of any type.\<close>

definition getitem :: "('k \<times> 'v) list \<Rightarrow> 'k \<Rightarrow> exn + 'v" where
  "getitem d k = (case map_of d k of None \<Rightarrow> Inl KeyError | Some v \<Rightarrow> Inr v)"

text \<open>A list comprehension whose element expression may raise: the first exception wins.\<close>

fun mapE :: "('a \<Rightarrow> exn + 'b) \<Rightarrow> 'a list \<Rightarrow> exn + 'b list" where
  "mapE f [] = Inr []"
| "mapE f (x # xs) =
     (case f x of
        Inl e \<Rightarrow> Inl e
      | Inr y \<Rightarrow> (case mapE f xs of Inl e \<Rightarrow> Inl e | Inr ys \<Rightarrow> Inr (y # ys)))"

section \<open>The environment: files, clock, standard output\<close>

text \<open>
  Text can be written to a UTF-8 file when it has no lone surrogate (code points
  \<open>0xD800\<close> to \<open>0xDFFF\<close>); \<open>json.load\<close> produces such strings from escapes like
  \<open>\ud800\<close>, and writing one raises \<open>UnicodeEncodeError\<close>.
\<close>

definition surrogate_free :: "pystr \<Rightarrow> bool" where
  "surrogate_free s = list_all (\<lambda>c. \<not> (55296 \<le> c \<and> c \<le> 57343)) s"

fun first_error :: "exn option list \<Rightarrow> exn option" where
  "first_error [] = None"
| "first_error (None # es) = first_error es"
| "first_error (Some e # es) = Some e"

text \<open>
  The exception, if any, with which \<open>json.dump(v, f, ensure_ascii=False, indent=2)\<close>
  stops on its way through \<open>v\<close>: the document is produced and written piece by piece in
  its order, a string with a lone surrogate cannot be encoded, and an integer beyond the
  digit limit cannot be printed.
\<close>

primrec dump_error :: "interp \<Rightarrow> json \<Rightarrow> exn option" where
  "dump_error ip JNull = None"
| "dump_error ip (JBool b) = None"
| "dump_error ip (JInt n) = (if int_str_error ip n then Some ValueError else None)"
| "dump_error ip (JFloat f) = None"
| "dump_error ip (JStr s) = (if surrogate_free s then None else Some UnicodeEncodeError)"
| "dump_error ip (JArr xs) = first_error (map (dump_error ip) xs)"
| "dump_error ip (JObj d) =
     first_error
       (map (\<lambda>(k, e). if surrogate_free k then e else Some UnicodeEncodeError)
          (map (map_prod id (dump_error ip)) d))"

definition encodable :: "interp \<Rightarrow> json \<Rightarrow> bool" where
  "encodable ip v \<longleftrightarrow> dump_error ip v = None"

text \<open>
  A CSV row: the writer turns every cell that is not a \<open>str\<close> into text with \<open>str()\<close>
  before it writes the row, and \<open>str()\<close> raises \<open>ValueError\<close> on an integer beyond the
  digit limit, also inside a list or a dict (whose strings it escapes, so that a surrogate
  in them does no harm).  Then the row is written, and a \<open>str\<close> cell with a lone
  surrogate raises \<open>UnicodeEncodeError\<close>.
\<close>

primrec str_raises :: "interp \<Rightarrow> json \<Rightarrow> bool" where
  "str_raises ip JNull = False"
| "str_raises ip (JBool b) = False"
| "str_raises ip (JInt n) = int_str_error ip n"
| "str_raises ip (JFloat f) = False"
| "str_raises ip (JStr s) = False"
| "str_raises ip (JArr xs) = list_ex id (map (str_raises ip) xs)"
| "str_raises ip (JObj d) = list_ex snd (map (map_prod id (str_raises ip)) d)"

definition cell_has_surrogate :: "json \<Rightarrow> bool" where
  "cell_has_surrogate v = (case v of JStr s \<Rightarrow> \<not> surrogate_free s | _ \<Rightarrow> False)"

definition row_error :: "interp \<Rightarrow> json list \<Rightarrow> exn option" where
  "row_error ip row =
     (if list_ex (str_raises ip) row then Some ValueError
      else if list_ex cell_has_surrogate row then Some UnicodeEncodeError
      else None)"

text \<open>
  What a file holds, as far as the program can tell: a JSON document (the value that
  \<open>json.load\<close> returns for it), a CSV
  table (the header and the rows handed to \<open>csv.DictWriter\<close>), the remains of a write
  that failed after the file was opened and truncated, text that is not JSON, or bytes
  that are not UTF-8.
\<close>

datatype content =
    JsonDoc json
  | CsvDoc "pystr list" "json list list"
  | Truncated
  | NotJson
  | NotUtf8

datatype node = Absent | Dir | File content

datatype io_op = OpenRead | OpenWrite | Write | MakeDirs

text \<open>A reading of \<open>datetime.now()\<close>, in the two renderings the program takes of it.\<close>

record datetime =
  isoformat :: pystr
  strftime :: pystr

text \<open>
  The world outside the program.  \<open>fault op p\<close> is the exception, if any, with which the
  operating system refuses operation \<open>op\<close> on path \<open>p\<close> (permissions, a missing parent
  directory, a full disk); \<open>exn_text\<close> is \<open>str(e)\<close>; \<open>clock n\<close> is what the \<open>n\<close>-th
  call of \<open>datetime.now()\<close> returns; \<open>interp\<close> is the interpreter the program runs on.
\<close>

record world =
  interp :: interp
  here :: pystr
  files :: "pystr \<Rightarrow> node"
  fault :: "io_op \<Rightarrow> pystr \<Rightarrow> exn option"
  exn_text :: "exn \<Rightarrow> pystr"
  stdout :: "pystr list"
  clock :: "nat \<Rightarrow> datetime"
  ticks :: nat

type_synonym 'a io = "world \<Rightarrow> (exn + 'a) \<times> world"

definition print :: "pystr \<Rightarrow> world \<Rightarrow> world" where
  "print line w = w\<lparr>stdout := stdout w @ [line]\<rparr>"

definition now :: "world \<Rightarrow> datetime \<times> world" where
  "now w = (clock w (ticks w), w\<lparr>ticks := Suc (ticks w)\<rparr>)"

text \<open>\<open>os.path.join\<close> (POSIX) for two components.\<close>

definition path_join :: "pystr \<Rightarrow> pystr \<Rightarrow> pystr" where
  "path_join a b =
     (if b \<noteq> [] \<and> hd b = 47 then b
      else if a = [] \<or> last a = 47 then a @ b
      else a @ [47] @ b)"

definition path_exists :: "world \<Rightarrow> pystr \<Rightarrow> bool" where
  "path_exists w p \<longleftrightarrow> files w p \<noteq> Absent"

text \<open>\<open>open(path, 'r', encoding='utf-8')\<close>: the content that reading will deliver.\<close>

definition open_read :: "pystr \<Rightarrow> content io" where
  "open_read p w =
     (case fault w OpenRead p of
        Some e \<Rightarrow> (Inl e, w)
      | None \<Rightarrow>
          (case files w p of
             Absent \<Rightarrow> (Inl FileNotFoundError, w)
           | Dir \<Rightarrow> (Inl IsADirectoryError, w)
           | File c \<Rightarrow> (Inr c, w)))"

text \<open>\<open>open(path, 'w', ...)\<close>: creates or truncates the file.\<close>

definition open_write :: "pystr \<Rightarrow> unit io" where
  "open_write p w =
     (case fault w OpenWrite p of
        Some e \<Rightarrow> (Inl e, w)
      | None \<Rightarrow>
          (case files w p of
             Dir \<Rightarrow> (Inl IsADirectoryError, w)
           | _ \<Rightarrow> (Inr (), w\<lparr>files := (files w)(p := File Truncated)\<rparr>)))"

text \<open>\<open>json.load(f)\<close> on the content of an opened file.\<close>

definition json_load :: "content \<Rightarrow> exn + json" where
  "json_load c =
     (case c of
        JsonDoc v \<Rightarrow> Inr v
      | CsvDoc h rows \<Rightarrow> Inl JSONDecodeError
      | Truncated \<Rightarrow> Inl JSONDecodeError
      | NotJson \<Rightarrow> Inl JSONDecodeError
      | NotUtf8 \<Rightarrow> Inl UnicodeDecodeError)"

text \<open>
  \<open>json.dump(v, f, ensure_ascii=False, indent=2)\<close> into the file opened at \<open>p\<close>, up to
  the close of the file.  When it raises, the file keeps what \<open>open\<close> left or a prefix
  of the document.
\<close>

definition json_dump :: "pystr \<Rightarrow> json \<Rightarrow> unit io" where
  "json_dump p v w =
     (case fault w Write p of
        Some e \<Rightarrow> (Inl e, w)
      | None \<Rightarrow>
          (case dump_error (interp w) v of
             Some e \<Rightarrow> (Inl e, w)
           | None \<Rightarrow> (Inr (), w\<lparr>files := (files w)(p := File (JsonDoc v))\<rparr>)))"

section \<open>\<open>lib/storage.py\<close>\<close>

definition msg_not_list :: "pystr \<Rightarrow> pystr" where
  "msg_not_list path =
     str ''El contenido de '' @ path @ str '' no es una lista. Devolviendo lista vac''
       @ [237] @ str ''a.''"

definition msg_corrupt :: "pystr \<Rightarrow> pystr" where
  "msg_corrupt path =
     str ''El archivo '' @ path @ str '' est'' @ [225] @ str '' corrupto o no es un JSON v''
       @ [225] @ str ''lido. Devolviendo lista vac'' @ [237] @ str ''a.''"

definition msg_read_error :: "world \<Rightarrow> pystr \<Rightarrow> exn \<Rightarrow> pystr" where
  "msg_read_error w path e =
     str ''Ocurri'' @ [243] @ str '' un error al leer '' @ path @ str '': '' @ exn_text w e
       @ str ''. Devolviendo lista vac'' @ [237] @ str ''a.''"

definition msg_write_error :: "world \<Rightarrow> pystr \<Rightarrow> exn \<Rightarrow> pystr" where
  "msg_write_error w path e =
     str ''Ocurri'' @ [243] @ str '' un error al escribir en '' @ path @ str '': ''
       @ exn_text w e @ str ''.''"

text \<open>The body of the \<open>try\<close> in \<open>load_tasks\<close>.\<close>

definition load_tasks_try :: "pystr \<Rightarrow> json list io" where
  "load_tasks_try path w =
     (case open_read path w of
        (Inl e, w1) \<Rightarrow> (Inl e, w1)
      | (Inr c, w1) \<Rightarrow>
          (case json_load c of
             Inl e \<Rightarrow> (Inl e, w1)
           | Inr data \<Rightarrow>
               (case data of
                  JArr xs \<Rightarrow> (Inr xs, w1)
                | _ \<Rightarrow> (Inr [], print (msg_not_list path) w1))))"

definition load_tasks :: "pystr \<Rightarrow> json list io" where
  "load_tasks path w =
     (if \<not> path_exists w path then (Inr [], w)
      else
        (case load_tasks_try path w of
           (Inr xs, w1) \<Rightarrow> (Inr xs, w1)
         | (Inl e, w1) \<Rightarrow>
             if e = JSONDecodeError then (Inr [], print (msg_corrupt path) w1)
             else (Inr [], print (msg_read_error w1 path e) w1)))"

text \<open>The body of the \<open>try\<close> in \<open>save_tasks\<close>.\<close>

definition save_tasks_try :: "pystr \<Rightarrow> pydict list \<Rightarrow> unit io" where
  "save_tasks_try path ts w =
     (case open_write path w of
        (Inl e, w1) \<Rightarrow> (Inl e, w1)
      | (Inr u, w1) \<Rightarrow> json_dump path (JArr (map JObj ts)) w1)"

definition save_tasks :: "pystr \<Rightarrow> pydict list \<Rightarrow> unit io" where
  "save_tasks path ts w =
     (case save_tasks_try path ts w of
        (Inr u, w1) \<Rightarrow> (Inr (), w1)
      | (Inl e, w1) \<Rightarrow> (Inr (), print (msg_write_error w1 path e) w1))"

section \<open>\<open>tareas.py\<close>: state and persistence\<close>

text \<open>
  The module's globals \<open>tasks\<close> (a dict from \<open>int\<close> to task dicts) and \<open>next_id\<close>,
  together with the world the program runs in.
\<close>

record state =
  tasks :: "(int \<times> pydict) list"
  next_id :: int
  world :: world

type_synonym 'a prog = "state \<Rightarrow> (exn + 'a) \<times> state"

definition DATA_FILE :: "world \<Rightarrow> pystr" where
  "DATA_FILE w = path_join (here w) (str ''tasks.json'')"

definition EXPORT_DIR :: "world \<Rightarrow> pystr" where
  "EXPORT_DIR w = path_join (here w) (str ''exports'')"

definition now_iso :: "world \<Rightarrow> pystr \<times> world" where
  "now_iso w = (case now w of (d, w1) \<Rightarrow> (isoformat d, w1))"

definition recalc_next_id :: "state \<Rightarrow> state" where
  "recalc_next_id s =
     (if tasks s \<noteq> [] then s\<lparr>next_id := Max (set (map fst (tasks s))) + 1\<rparr>
      else s\<lparr>next_id := 1\<rparr>)"

text \<open>\<open>int(t["id"])\<close> for a raw record \<open>t\<close>.\<close>

definition coerce_id :: "interp \<Rightarrow> json \<Rightarrow> exn + int" where
  "coerce_id ip t =
     (case subscript t (str ''id'') of Inl e \<Rightarrow> Inl e | Inr v \<Rightarrow> py_int ip v)"

text \<open>
  One turn of the loop in \<open>load_state\<close>: \<open>tid = int(t["id"])\<close>, \<open>tasks[tid] = t\<close>, and
  any exception skips the record.  Only a dict gets past \<open>t["id"]\<close>, so the last
  alternative of the inner \<open>case\<close> is never taken.
\<close>

definition load_step ::
  "interp \<Rightarrow> json \<Rightarrow> (int \<times> pydict) list \<Rightarrow> (int \<times> pydict) list" where
  "load_step ip t ts =
     (case coerce_id ip t of
        Inl e \<Rightarrow> ts
      | Inr tid \<Rightarrow> (case t of JObj d \<Rightarrow> AList.update tid d ts | _ \<Rightarrow> ts))"

definition load_state :: "unit prog" where
  "load_state s =
     (case load_tasks (DATA_FILE (world s)) (world s) of
        (Inl e, w1) \<Rightarrow> (Inl e, s\<lparr>world := w1\<rparr>)
      | (Inr raw, w1) \<Rightarrow>
          (Inr (),
           recalc_next_id (s\<lparr>tasks := fold (load_step (interp w1)) raw [], world := w1\<rparr>)))"

text \<open>\<open>[tasks[k] for k in sorted(tasks.keys())]\<close>\<close>

definition as_list :: "(int \<times> pydict) list \<Rightarrow> exn + pydict list" where
  "as_list ts = mapE (getitem ts) (sort (map fst ts))"

definition persist :: "unit prog" where
  "persist s =
     (case as_list (tasks s) of
        Inl e \<Rightarrow> (Inl e, s)
      | Inr l \<Rightarrow>
          (case save_tasks (DATA_FILE (world s)) l (world s) of
             (r, w1) \<Rightarrow> (r, s\<lparr>world := w1\<rparr>)))"

section \<open>\<open>tareas.py\<close>: business logic\<close>

definition add_task :: "pystr \<Rightarrow> pystr \<Rightarrow> bool \<Rightarrow> pydict prog" where
  "add_task title description done s =
     (case now_iso (world s) of (date, w1) \<Rightarrow>
      case now_iso w1 of (updated_at, w2) \<Rightarrow>
        (let task = [(str ''id'', JInt (next_id s)),
                     (str ''date'', JStr date),
                     (str ''title'', JStr (strip title)),
                     (str ''description'', JStr (strip description)),
                     (str ''done'', JBool done),
                     (str ''updated_at'', JStr updated_at)];
             s1 = s\<lparr>tasks := AList.update (next_id s) task (tasks s), world := w2\<rparr>;
             s2 = s1\<lparr>next_id := next_id s1 + 1\<rparr>
         in case persist s2 of
              (Inl e, s3) \<Rightarrow> (Inl e, s3)
            | (Inr u, s3) \<Rightarrow> (Inr task, s3)))"

text \<open>
  \<open>edit_task\<close> changes the dict \<open>t\<close> that \<open>tasks\<close> holds under \<open>task_id\<close> in place; no
  other key of \<open>tasks\<close> refers to that dict, so the change is the replacement of the
  value under \<open>task_id\<close>.  \<open>not t\<close> holds for \<open>None\<close> and for an empty dict.
\<close>

definition edit_task :: "int \<Rightarrow> pystr \<Rightarrow> pystr \<Rightarrow> bool \<Rightarrow> bool prog" where
  "edit_task task_id title description done s =
     (case map_of (tasks s) task_id of
        None \<Rightarrow> (Inr False, s)
      | Some t \<Rightarrow>
          if t = [] then (Inr False, s)
          else
            (let t1 = AList.update (str ''title'') (JStr (strip title)) t;
                 t2 = AList.update (str ''description'') (JStr (strip description)) t1;
                 t3 = AList.update (str ''done'') (JBool done) t2
             in case now_iso (world s) of (updated_at, w1) \<Rightarrow>
                  (let t4 = AList.update (str ''updated_at'') (JStr updated_at) t3;
                       s1 = s\<lparr>tasks := AList.update task_id t4 (tasks s), world := w1\<rparr>
                   in case persist s1 of
                        (Inl e, s2) \<Rightarrow> (Inl e, s2)
                      | (Inr u, s2) \<Rightarrow> (Inr True, s2))))"

definition delete_task :: "int \<Rightarrow> bool prog" where
  "delete_task task_id s =
     (if task_id \<in> set (map fst (tasks s)) then
        (case persist (s\<lparr>tasks := AList.delete task_id (tasks s)\<rparr>) of
           (Inl e, s1) \<Rightarrow> (Inl e, s1)
         | (Inr u, s1) \<Rightarrow> (Inr True, s1))
      else (Inr False, s))"

section \<open>\<open>tareas.py\<close>: exports\<close>

text \<open>\<open>os.makedirs(EXPORT_DIR, exist_ok=True)\<close>\<close>

definition makedirs :: "pystr \<Rightarrow> unit io" where
  "makedirs p w =
     (case fault w MakeDirs p of
        Some e \<Rightarrow> (Inl e, w)
      | None \<Rightarrow>
          (case files w p of
             Absent \<Rightarrow> (Inr (), w\<lparr>files := (files w)(p := Dir)\<rparr>)
           | Dir \<Rightarrow> (Inr (), w)
           | File c \<Rightarrow> (Inl FileExistsError, w)))"

definition ensure_export_dir :: "unit io" where
  "ensure_export_dir w = makedirs (EXPORT_DIR w) w"

definition timestamp :: "world \<Rightarrow> pystr \<times> world" where
  "timestamp w = (case now w of (d, w1) \<Rightarrow> (strftime d, w1))"

definition export_json :: "pystr prog" where
  "export_json s =
     (case ensure_export_dir (world s) of
        (Inl e, w1) \<Rightarrow> (Inl e, s\<lparr>world := w1\<rparr>)
      | (Inr u, w1) \<Rightarrow>
          (case timestamp w1 of (ts, w2) \<Rightarrow>
             (let path = path_join (EXPORT_DIR w2) (str ''tasks_'' @ ts @ str ''.json'')
              in case as_list (tasks s) of
                   Inl e \<Rightarrow> (Inl e, s\<lparr>world := w2\<rparr>)
                 | Inr payload \<Rightarrow>
                     (case save_tasks path payload w2 of
                        (Inl e, w3) \<Rightarrow> (Inl e, s\<lparr>world := w3\<rparr>)
                      | (Inr u, w3) \<Rightarrow> (Inr path, s\<lparr>world := w3\<rparr>)))))"

definition fieldnames :: "pystr list" where
  "fieldnames = [str ''id'', str ''date'', str ''title'', str ''description'', str ''done'',
                 str ''updated_at'']"

text \<open>\<open>{k: tasks[tid].get(k, "") for k in fieldnames}\<close>, in the order of the columns.\<close>

definition csv_row :: "pydict \<Rightarrow> json list" where
  "csv_row t = map (\<lambda>k. case map_of t k of None \<Rightarrow> JStr [] | Some v \<Rightarrow> v) fieldnames"

text \<open>
  The header and the rows written through \<open>csv.DictWriter\<close> into the file opened at
  \<open>p\<close>, one after the other, up to the close of the file.  When a row raises, the file
  keeps what was written before it.
\<close>

definition csv_write :: "pystr \<Rightarrow> pystr list \<Rightarrow> json list list \<Rightarrow> unit io" where
  "csv_write p header rows w =
     (case fault w Write p of
        Some e \<Rightarrow> (Inl e, w)
      | None \<Rightarrow>
          (case first_error
                  ((if list_all surrogate_free header then None else Some UnicodeEncodeError)
                   # map (row_error (interp w)) rows) of
             Some e \<Rightarrow> (Inl e, w)
           | None \<Rightarrow> (Inr (), w\<lparr>files := (files w)(p := File (CsvDoc header rows))\<rparr>)))"

definition export_csv :: "pystr prog" where
  "export_csv s =
     (case ensure_export_dir (world s) of
        (Inl e, w1) \<Rightarrow> (Inl e, s\<lparr>world := w1\<rparr>)
      | (Inr u, w1) \<Rightarrow>
          (case timestamp w1 of (ts, w2) \<Rightarrow>
             (let path = path_join (EXPORT_DIR w2) (str ''tasks_'' @ ts @ str ''.csv'')
              in case open_write path w2 of
                   (Inl e, w3) \<Rightarrow> (Inl e, s\<lparr>world := w3\<rparr>)
                 | (Inr u, w3) \<Rightarrow>
                     (case as_list (tasks s) of
                        Inl e \<Rightarrow> (Inl e, s\<lparr>world := w3\<rparr>)
                      | Inr ts_sorted \<Rightarrow>
                          (case csv_write path fieldnames (map csv_row ts_sorted) w3 of
                             (Inl e, w4) \<Rightarrow> (Inl e, s\<lparr>world := w4\<rparr>)
                           | (Inr u, w4) \<Rightarrow> (Inr path, s\<lparr>world := w4\<rparr>))))))"

section \<open>Invariants of the store\<close>

text \<open>
  What every state the program can reach satisfies: the keys of \<open>tasks\<close> are distinct
  (it is a dict), every task stored under key \<open>k\<close> is a record whose \<open>id\<close> field
  coerces to \<open>k\<close>, and \<open>next_id\<close> is above all keys.
\<close>

definition tasks_inv :: "interp \<Rightarrow> (int \<times> pydict) list \<Rightarrow> bool" where
  "tasks_inv ip ts \<longleftrightarrow>
     distinct (map fst ts) \<and> list_all (\<lambda>(k, t). coerce_id ip (JObj t) = Inr k) ts"

definition store_inv :: "state \<Rightarrow> bool" where
  "store_inv s \<longleftrightarrow>
     tasks_inv (interp (world s)) (tasks s) \<and> list_all (\<lambda>(k, t). k < next_id s) (tasks s)"

text \<open>
  The environment lets the program write document \<open>v\<close> to path \<open>p\<close>, and read \<open>p\<close>.
\<close>

definition can_write :: "world \<Rightarrow> pystr \<Rightarrow> bool" where
  "can_write w p \<longleftrightarrow> fault w OpenWrite p = None \<and> fault w Write p = None \<and> files w p \<noteq> Dir"

definition can_read :: "world \<Rightarrow> pystr \<Rightarrow> bool" where
  "can_read w p \<longleftrightarrow> fault w OpenRead p = None"

text \<open>The record that \<open>add_task\<close> builds in state \<open>s\<close>, and the state it persists.\<close>

definition new_task :: "state \<Rightarrow> pystr \<Rightarrow> pystr \<Rightarrow> bool \<Rightarrow> pydict" where
  "new_task s title description done =
     [(str ''id'', JInt (next_id s)),
      (str ''date'', JStr (isoformat (clock (world s) (ticks (world s))))),
      (str ''title'', JStr (strip title)),
      (str ''description'', JStr (strip description)),
      (str ''done'', JBool done),
      (str ''updated_at'', JStr (isoformat (clock (world s) (Suc (ticks (world s))))))]"

definition added :: "state \<Rightarrow> pystr \<Rightarrow> pystr \<Rightarrow> bool \<Rightarrow> state" where
  "added s title description done =
     s\<lparr>tasks := AList.update (next_id s) (new_task s title description done) (tasks s),
       world := (world s)\<lparr>ticks := Suc (Suc (ticks (world s)))\<rparr>,
       next_id := next_id s + 1\<rparr>"

text \<open>The record that \<open>edit_task\<close> leaves in place of \<open>t\<close>, and the state it persists.\<close>

definition edited_task :: "state \<Rightarrow> pydict \<Rightarrow> pystr \<Rightarrow> pystr \<Rightarrow> bool \<Rightarrow> pydict" where
  "edited_task s t title description done =
     AList.update (str ''updated_at'') (JStr (isoformat (clock (world s) (ticks (world s)))))
       (AList.update (str ''done'') (JBool done)
         (AList.update (str ''description'') (JStr (strip description))
           (AList.update (str ''title'') (JStr (strip title)) t)))"

definition edited :: "state \<Rightarrow> int \<Rightarrow> pydict \<Rightarrow> pystr \<Rightarrow> pystr \<Rightarrow> bool \<Rightarrow> state" where
  "edited s task_id t title description done =
     s\<lparr>tasks := AList.update task_id (edited_task s t title description done) (tasks s),
       world := (world s)\<lparr>ticks := Suc (ticks (world s))\<rparr>\<rparr>"

text \<open>
  A session of the interactive shell, as far as the store is concerned: after
  \<open>load_state\<close>, any sequence of calls of \<open>add_task\<close>, \<open>edit_task\<close> and \<open>delete_task\<close>.
\<close>

datatype command =
    Add pystr pystr bool
  | Edit int pystr pystr bool
  | Delete int

fun exec :: "command \<Rightarrow> state \<Rightarrow> state" where
  "exec (Add title description done) s = snd (add_task title description done s)"
| "exec (Edit task_id title description done) s =
     snd (edit_task task_id title description done s)"
| "exec (Delete task_id) s = snd (delete_task task_id s)"

definition run :: "command list \<Rightarrow> state \<Rightarrow> state" where
  "run cs s = fold exec cs s"

text \<open>A record has the six fields of a task.\<close>

definition has_six_fields :: "pydict \<Rightarrow> bool" where
  "has_six_fields t = list_all (\<lambda>k. k \<in> fst ` set t) fieldnames"

section \<open>Example worlds\<close>

text \<open>
  An interpreter like CPython 3.11: the decimal digits of Unicode 14.0, which come in 65
  runs of ten code points for the values 0 to 9 (listed by the code point of their
  zero), and the default limit of 4300 digits.
\<close>

definition unicode_14_zeros :: "nat list" where
  "unicode_14_zeros =
     [1632, 1776, 1984, 2406, 2534, 2662, 2790, 2918, 3046, 3174, 3302, 3430, 3558, 3664,
      3792, 3872, 4160, 4240, 6112, 6160, 6470, 6608, 6784, 6800, 6992, 7088, 7232, 7248,
      42528, 43216, 43264, 43472, 43504, 43600, 44016, 65296, 66720, 68912, 69734, 69872,
      69942, 70096, 70384, 70736, 70864, 71248, 71360, 71472, 71904, 72016, 72784, 73040,
      73120, 92768, 92864, 93008, 120782, 120792, 120802, 120812, 120822, 123200, 123632,
      125264, 130032]"

definition unicode_14_decimal :: "nat \<Rightarrow> nat option" where
  "unicode_14_decimal c =
     (case find (\<lambda>z. z \<le> c \<and> c < z + 10) unicode_14_zeros of
        None \<Rightarrow> None
      | Some z \<Rightarrow> Some (c - z))"

definition ex_interp :: interp where
  "ex_interp = \<lparr>unicode_decimal = unicode_14_decimal, max_str_digits = 4300\<rparr>"

text \<open>
  A world with the given files and faults, the program installed in directory \<open>app\<close>,
  nothing printed yet, and a clock that advances by one second per reading.
\<close>

definition ex_world :: "(pystr \<Rightarrow> node) \<Rightarrow> (io_op \<Rightarrow> pystr \<Rightarrow> exn option) \<Rightarrow> world" where
  "ex_world fs flt =
     \<lparr>interp = ex_interp, here = str ''app'', files = fs, fault = flt,
      exn_text = (\<lambda>e. str ''refused''), stdout = [],
      clock = (\<lambda>n. \<lparr>isoformat = str ''2024-05-01T10:00:0'' @ [48 + n mod 10],
                     strftime = str ''20240501_10000'' @ [48 + n mod 10]\<rparr>),
      ticks = 0\<rparr>"

definition ex_data :: pystr where
  "ex_data = str ''app/tasks.json''"

definition no_fault :: "io_op \<Rightarrow> pystr \<Rightarrow> exn option" where
  "no_fault op p = None"

text \<open>A file system that holds the data file, with content \<open>c\<close>, and nothing else.\<close>

definition only_data :: "content \<Rightarrow> pystr \<Rightarrow> node" where
  "only_data c p = (if p = ex_data then File c else Absent)"

definition no_files :: "pystr \<Rightarrow> node" where
  "no_files p = Absent"

text \<open>The module's globals as they are when the program starts.\<close>

definition init_state :: "world \<Rightarrow> state" where
  "init_state w = \<lparr>tasks = [], next_id = 1, world = w\<rparr>"

definition ex_task :: "int \<Rightarrow> string \<Rightarrow> pydict" where
  "ex_task i title =
     [(str ''id'', JInt i),
      (str ''date'', JStr (str ''2024-04-30T09:00:00'')),
      (str ''title'', JStr (str title)),
      (str ''description'', JStr (str ''to do'')),
      (str ''done'', JBool False),
      (str ''updated_at'', JStr (str ''2024-04-30T09:00:00''))]"

text \<open>A data file with tasks 1 and 2, and the program started on it.\<close>

definition ex_doc12 :: json where
  "ex_doc12 = JArr [JObj (ex_task 1 ''one''), JObj (ex_task 2 ''two'')]"

definition ex_start12 :: state where
  "ex_start12 = init_state (ex_world (only_data (JsonDoc ex_doc12)) no_fault)"

text \<open>Two stores with the same tasks, inserted in opposite orders.\<close>

definition ex_store21 :: state where
  "ex_store21 =
     \<lparr>tasks = [(2, ex_task 2 ''two''), (1, ex_task 1 ''one'')], next_id = 3,
      world = ex_world no_files no_fault\<rparr>"

definition ex_store12 :: state where
  "ex_store12 =
     \<lparr>tasks = [(1, ex_task 1 ''one''), (2, ex_task 2 ''two'')], next_id = 3,
      world = ex_world no_files no_fault\<rparr>"

text \<open>
  A data file whose two records both coerce to id 2: the number \<open>2\<close> and the string
  \<open>"2"\<close>.
\<close>

definition ex_rec_num :: pydict where
  "ex_rec_num = [(str ''id'', JInt 2), (str ''title'', JStr (str ''first''))]"

definition ex_rec_str :: pydict where
  "ex_rec_str = [(str ''id'', JStr (str ''2'')), (str ''title'', JStr (str ''second''))]"

definition ex_start_dup :: state where
  "ex_start_dup =
     init_state (ex_world (only_data (JsonDoc (JArr [JObj ex_rec_num, JObj ex_rec_str]))) no_fault)"

text \<open>
  A data file with three records of id 2: the number, the string \<open>"2"\<close>, and the
  string made of the Arabic-Indic digit two.
\<close>

definition ex_rec_arabic :: pydict where
  "ex_rec_arabic = [(str ''id'', JStr [1634]), (str ''title'', JStr (str ''third''))]"

definition ex_start_three :: state where
  "ex_start_three =
     init_state (ex_world
       (only_data (JsonDoc (JArr [JObj ex_rec_num, JObj ex_rec_str, JObj ex_rec_arabic])))
       no_fault)"

text \<open>
  A data file whose record has a title with a lone surrogate, as the document
  \<open>[{"id": 1, "title": "\ud800"}]\<close> gives it.
\<close>

definition ex_rec_sur :: pydict where
  "ex_rec_sur = [(str ''id'', JInt 1), (str ''title'', JStr [55296])]"

definition ex_start_sur :: state where
  "ex_start_sur = init_state (ex_world (only_data (JsonDoc (JArr [JObj ex_rec_sur]))) no_fault)"

text \<open>The program at its first start: no data file yet.\<close>

definition ex_fresh :: state where
  "ex_fresh = init_state (ex_world no_files no_fault)"

text \<open>A data file whose only record has an id and nothing else.\<close>

definition ex_start_bare :: state where
  "ex_start_bare =
     init_state (ex_world (only_data (JsonDoc (JArr [JObj [(str ''id'', JInt 1)]]))) no_fault)"

text \<open>A world in which the export directory cannot be created.\<close>

definition no_mkdir :: "io_op \<Rightarrow> pystr \<Rightarrow> exn option" where
  "no_mkdir op p = (if op = MakeDirs then Some OSError else None)"

text \<open>A world in which no file can be opened for writing.\<close>

definition no_write :: "io_op \<Rightarrow> pystr \<Rightarrow> exn option" where
  "no_write op p = (if op = OpenWrite then Some OSError else None)"

text \<open>A store whose task 2, inserted first, has only an id and a title.\<close>

definition ex_store_partial :: state where
  "ex_store_partial =
     \<lparr>tasks = [(2, ex_rec_num), (1, ex_task 1 ''one'')], next_id = 3,
      world = ex_world no_files no_fault\<rparr>"

definition ex_csv_path :: pystr where
  "ex_csv_path = str ''app/exports/tasks_20240501_100000.csv''"

text \<open>
  Task 1 of that store after \<open>edit_task 1 " x " "y" True\<close> at the first reading of the
  clock, and the same store in a world where no file can be opened for writing.
\<close>

definition ex_task1_edited :: pydict where
  "ex_task1_edited =
     [(str ''id'', JInt 1),
      (str ''date'', JStr (str ''2024-04-30T09:00:00'')),
      (str ''title'', JStr (str ''x'')),
      (str ''description'', JStr (str ''y'')),
      (str ''done'', JBool True),
      (str ''updated_at'', JStr (str ''2024-05-01T10:00:00''))]"

definition ex_store12_ro :: state where
  "ex_store12_ro =
     \<lparr>tasks = [(1, ex_task 1 ''one''), (2, ex_task 2 ''two'')], next_id = 3,
      world = ex_world no_files no_write\<rparr>"

section \<open>Basic facts\<close>

lemma str_eq_iff [simp]: "str a = str b \<longleftrightarrow> a = b"
  by (simp add: str_def inj_map_eq_map inj_of_char)

lemma DATA_FILE_ex [simp]: "DATA_FILE (ex_world fs flt) = ex_data"
  by (simp add: DATA_FILE_def ex_world_def ex_data_def path_join_def str_def)

subsection \<open>The storage adapter\<close>

lemma load_tasks_returns: "\<exists>xs w1. load_tasks path w = (Inr xs, w1)"
  by (auto simp: load_tasks_def split: prod.splits sum.splits)

lemma load_tasks_absent: "files w path = Absent \<Longrightarrow> load_tasks path w = (Inr [], w)"
  by (simp add: load_tasks_def path_exists_def)

lemma load_tasks_array:
  "can_read w path \<Longrightarrow> files w path = File (JsonDoc (JArr xs)) \<Longrightarrow>
   load_tasks path w = (Inr xs, w)"
  by (simp add: load_tasks_def path_exists_def load_tasks_try_def open_read_def json_load_def
      can_read_def)

lemma load_tasks_corrupt:
  "can_read w path \<Longrightarrow> files w path = File c \<Longrightarrow> json_load c = Inl JSONDecodeError \<Longrightarrow>
   load_tasks path w = (Inr [], print (msg_corrupt path) w)"
  by (simp add: load_tasks_def path_exists_def load_tasks_try_def open_read_def can_read_def)

lemma load_tasks_not_list:
  "can_read w path \<Longrightarrow> files w path = File (JsonDoc v) \<Longrightarrow> \<forall>xs. v \<noteq> JArr xs \<Longrightarrow>
   load_tasks path w = (Inr [], print (msg_not_list path) w)"
  by (cases v)
    (simp_all add: load_tasks_def path_exists_def load_tasks_try_def open_read_def
      json_load_def can_read_def)

lemma load_tasks_empty_cases:
  "files w path = File c \<Longrightarrow> \<forall>xs. c \<noteq> JsonDoc (JArr xs) \<Longrightarrow> fst (load_tasks path w) = Inr []"
  by (auto simp: load_tasks_def path_exists_def load_tasks_try_def open_read_def json_load_def
      split: option.splits content.splits json.splits)

lemma msg_corrupt_neq_not_list: "msg_corrupt p \<noteq> msg_not_list q"
  by (simp add: msg_corrupt_def msg_not_list_def str_def)

lemma save_tasks_returns: "fst (save_tasks p l w) = Inr ()"
  by (simp add: save_tasks_def split: prod.splits sum.splits)

text \<open>No operation changes the interpreter or the place of the program.\<close>

lemma print_interp [simp]: "interp (print m w) = interp w"
  and print_here [simp]: "here (print m w) = here w"
  by (simp_all add: print_def)

lemma load_tasks_keeps [simp]:
  "interp (snd (load_tasks p w)) = interp w" "here (snd (load_tasks p w)) = here w"
  by (auto simp: load_tasks_def load_tasks_try_def open_read_def
      split: prod.splits sum.splits option.splits node.splits json.splits)

lemma save_tasks_keeps [simp]:
  "interp (snd (save_tasks p l w)) = interp w" "here (snd (save_tasks p l w)) = here w"
  by (auto simp: save_tasks_def save_tasks_try_def open_write_def json_dump_def
      split: prod.splits sum.splits option.splits node.splits)

subsection \<open>Dicts as association lists\<close>

lemma set_update_subset: "set (AList.update k v al) \<subseteq> insert (k, v) (set al)"
  by (induction al) auto

lemma update_fresh: "k \<notin> fst ` set al \<Longrightarrow> AList.update k v al = al @ [(k, v)]"
  by (induction al) auto

lemma mapE_total:
  "(\<And>x. x \<in> set xs \<Longrightarrow> f x = Inr (g x)) \<Longrightarrow> mapE f xs = Inr (map g xs)"
  by (induction xs) simp_all

lemma getitem_key: "k \<in> set (map fst ts) \<Longrightarrow> getitem ts k = Inr (the (map_of ts k))"
  by (auto simp: getitem_def map_of_eq_None_iff split: option.splits)

lemma as_list_eq: "as_list ts = Inr (map (\<lambda>k. the (map_of ts k)) (sort (map fst ts)))"
  unfolding as_list_def by (rule mapE_total) (simp add: getitem_key)

subsection \<open>The invariant is established by loading and kept by every operation\<close>

lemma tasks_inv_Nil [simp]: "tasks_inv ip []"
  by (simp add: tasks_inv_def)

lemma tasks_inv_update:
  assumes "tasks_inv ip ts" and "coerce_id ip (JObj d) = Inr k"
  shows "tasks_inv ip (AList.update k d ts)"
proof -
  have "distinct (map fst (AList.update k d ts))"
    using assms(1) by (simp add: tasks_inv_def distinct_update)
  moreover have "\<forall>(k', t) \<in> set (AList.update k d ts). coerce_id ip (JObj t) = Inr k'"
    using assms set_update_subset [of k d ts]
    by (auto simp: tasks_inv_def list_all_iff)
  ultimately show ?thesis
    by (simp add: tasks_inv_def list_all_iff)
qed

lemma tasks_inv_delete:
  assumes "tasks_inv ip ts"
  shows "tasks_inv ip (AList.delete k ts)"
proof -
  have "distinct (map fst (AList.delete k ts))"
    using assms by (simp add: tasks_inv_def distinct_delete)
  moreover have "set (AList.delete k ts) \<subseteq> set ts"
    by (auto simp: AList.delete_eq)
  ultimately show ?thesis
    using assms by (auto simp: tasks_inv_def list_all_iff)
qed

lemma tasks_inv_load_step: "tasks_inv ip ts \<Longrightarrow> tasks_inv ip (load_step ip t ts)"
  by (auto simp: load_step_def tasks_inv_update split: sum.splits json.splits)

lemma tasks_inv_fold: "tasks_inv ip ts \<Longrightarrow> tasks_inv ip (fold (load_step ip) raw ts)"
  by (induction raw arbitrary: ts) (simp_all add: tasks_inv_load_step)

lemma persist_returns: "fst (persist s) = Inr ()"
  by (simp add: persist_def as_list_eq case_prod_beta save_tasks_returns)

lemma persist_tasks [simp]: "tasks (snd (persist s)) = tasks s"
  by (simp add: persist_def as_list_eq case_prod_beta)

lemma persist_next_id [simp]: "next_id (snd (persist s)) = next_id s"
  by (simp add: persist_def as_list_eq case_prod_beta)

lemma persist_keeps [simp]:
  "interp (world (snd (persist s))) = interp (world s)"
  "here (world (snd (persist s))) = here (world s)"
  by (simp_all add: persist_def as_list_eq case_prod_beta)

lemma persist_DATA_FILE [simp]: "DATA_FILE (world (snd (persist s))) = DATA_FILE (world s)"
  by (simp add: DATA_FILE_def)

lemma store_inv_persist: "store_inv (snd (persist s)) = store_inv s"
  by (simp add: store_inv_def)

lemma recalc_tasks [simp]: "tasks (recalc_next_id s) = tasks s"
  by (simp add: recalc_next_id_def)

lemma recalc_world [simp]: "world (recalc_next_id s) = world s"
  by (simp add: recalc_next_id_def)

lemma recalc_bound: "list_all (\<lambda>(k, t). k < next_id (recalc_next_id s)) (tasks s)"
proof -
  have "k < Max (set (map fst (tasks s))) + 1" if "(k, t) \<in> set (tasks s)" for k t
  proof -
    have "k \<in> set (map fst (tasks s))" using that by force
    then have "k \<le> Max (set (map fst (tasks s)))" by (intro Max_ge) simp_all
    then show ?thesis by simp
  qed
  then show ?thesis
    by (auto simp: recalc_next_id_def list_all_iff)
qed

lemma load_state_returns: "fst (load_state s) = Inr ()"
  using load_tasks_returns [of "DATA_FILE (world s)" "world s"]
  by (auto simp: load_state_def)

lemma load_state_eq:
  assumes "load_tasks (DATA_FILE (world s)) (world s) = (Inr raw, w1)"
  shows "load_state s =
    (Inr (), recalc_next_id (s\<lparr>tasks := fold (load_step (interp (world s))) raw [], world := w1\<rparr>))"
proof -
  have "interp w1 = interp (world s)"
    using load_tasks_keeps(1) [of "DATA_FILE (world s)" "world s"] by (simp add: assms)
  then show ?thesis
    by (simp add: load_state_def assms)
qed

lemma load_state_keeps [simp]:
  "interp (world (snd (load_state s))) = interp (world s)"
  "here (world (snd (load_state s))) = here (world s)"
proof -
  obtain raw w1 where lt: "load_tasks (DATA_FILE (world s)) (world s) = (Inr raw, w1)"
    using load_tasks_returns by blast
  have "interp w1 = interp (world s)" "here w1 = here (world s)"
    using load_tasks_keeps [of "DATA_FILE (world s)" "world s"] by (simp_all add: lt)
  then show "interp (world (snd (load_state s))) = interp (world s)"
    "here (world (snd (load_state s))) = here (world s)"
    by (simp_all add: load_state_eq [OF lt])
qed

lemma store_inv_load_state: "store_inv (snd (load_state s))"
proof -
  obtain raw w1 where lt: "load_tasks (DATA_FILE (world s)) (world s) = (Inr raw, w1)"
    using load_tasks_returns by blast
  define ip where "ip = interp (world s)"
  let ?s1 = "s\<lparr>tasks := fold (load_step ip) raw [], world := w1\<rparr>"
  have e: "snd (load_state s) = recalc_next_id ?s1"
    by (simp add: load_state_eq [OF lt] ip_def)
  have "interp w1 = ip"
    using load_tasks_keeps(1) [of "DATA_FILE (world s)" "world s"] by (simp add: lt ip_def)
  then have "tasks_inv (interp (world (recalc_next_id ?s1))) (tasks (recalc_next_id ?s1))"
    by (simp add: tasks_inv_fold)
  moreover have "list_all (\<lambda>(k, t). k < next_id (recalc_next_id ?s1)) (tasks (recalc_next_id ?s1))"
    using recalc_bound [of ?s1] by simp
  ultimately show ?thesis
    unfolding e by (simp add: store_inv_def)
qed

subsection \<open>A successful save, and reading it back\<close>

lemma first_error_None: "first_error es = None \<longleftrightarrow> list_all (\<lambda>e. e = None) es"
  by (induction es rule: first_error.induct) simp_all

lemma encodable_JArr: "encodable ip (JArr xs) \<longleftrightarrow> list_all (encodable ip) xs"
  by (simp add: encodable_def first_error_None list_all_iff)

lemma msg_write_error_files [simp]:
  "msg_write_error (w\<lparr>files := f\<rparr>) p e = msg_write_error w p e"
  by (simp add: msg_write_error_def)

lemma save_tasks_ok:
  assumes "can_write w p" and "encodable (interp w) (JArr (map JObj l))"
  shows "save_tasks p l w =
    (Inr (), w\<lparr>files := (files w)(p := File (JsonDoc (JArr (map JObj l))))\<rparr>)"
  using assms
  by (auto simp: save_tasks_def save_tasks_try_def open_write_def json_dump_def can_write_def
      encodable_def split: node.splits)

text \<open>
  A save that does not succeed prints one message; the file is as it was, or cut.
\<close>

lemma save_tasks_failed:
  assumes "\<not> (can_write w p \<and> encodable (interp w) (JArr (map JObj l)))"
  shows "\<exists>e. stdout (snd (save_tasks p l w)) = stdout w @ [msg_write_error w p e] \<and>
    (files (snd (save_tasks p l w)) = files w \<or>
     files (snd (save_tasks p l w)) = (files w)(p := File Truncated))"
  using assms
  by (auto simp: save_tasks_def save_tasks_try_def open_write_def json_dump_def can_write_def
      encodable_def print_def split: node.splits option.splits)

lemma encodable_sorted:
  assumes "list_all (\<lambda>(k, t). encodable ip (JObj t)) ts"
  shows "encodable ip (JArr (map JObj (map (\<lambda>k. the (map_of ts k)) (sort (map fst ts)))))"
proof -
  have "encodable ip (JObj (the (map_of ts k)))" if "k \<in> set (map fst ts)" for k
  proof -
    from that obtain t where "map_of ts k = Some t"
      by (metis map_of_eq_None_iff not_Some_eq set_map)
    moreover from this have "(k, t) \<in> set ts" by (rule map_of_SomeD)
    ultimately show ?thesis
      using assms by (auto simp: list_all_iff)
  qed
  then show ?thesis
    by (simp add: encodable_JArr list_all_iff)
qed

lemma encodable_sorted_iff:
  "encodable ip (JArr (map JObj (map (\<lambda>k. the (map_of ts k)) (sort (map fst ts))))) \<longleftrightarrow>
   list_all (\<lambda>k. encodable ip (JObj (the (map_of ts k)))) (map fst ts)"
  by (simp add: encodable_JArr list_all_iff)

lemma persist_ok:
  assumes "can_write (world s) (DATA_FILE (world s))"
    and "list_all (\<lambda>(k, t). encodable (interp (world s)) (JObj t)) (tasks s)"
  shows "persist s =
    (Inr (), s\<lparr>world := (world s)\<lparr>files := (files (world s))
       (DATA_FILE (world s) :=
          File (JsonDoc (JArr (map JObj (map (\<lambda>k. the (map_of (tasks s) k))
            (sort (map fst (tasks s)))))))) \<rparr>\<rparr>)"
  using save_tasks_ok [OF assms(1) encodable_sorted [OF assms(2)]]
  by (simp add: persist_def as_list_eq)

lemma fold_load_step_pairs:
  assumes "list_all (\<lambda>(k, t). coerce_id ip (JObj t) = Inr k) ps"
    and "distinct (map fst acc @ map fst ps)"
  shows "fold (load_step ip) (map (\<lambda>(k, t). JObj t) ps) acc = acc @ ps"
  using assms
proof (induction ps arbitrary: acc)
  case Nil
  then show ?case by simp
next
  case (Cons p ps)
  obtain k t where p: "p = (k, t)" by (cases p)
  from Cons.prems p have c: "coerce_id ip (JObj t) = Inr k" by simp
  from Cons.prems p have "k \<notin> fst ` set acc" by auto
  then have step: "load_step ip (JObj t) acc = acc @ [(k, t)]"
    by (simp add: load_step_def c update_fresh)
  have "fold (load_step ip) (map (\<lambda>(k, t). JObj t) ps) (acc @ [(k, t)]) = (acc @ [(k, t)]) @ ps"
    using Cons.prems p by (intro Cons.IH) auto
  then show ?case by (simp add: p step)
qed

lemma sorted_pairs_in:
  assumes "k \<in> set (map fst ts)"
  shows "(k, the (map_of ts k)) \<in> set ts"
proof -
  from assms obtain t where "map_of ts k = Some t"
    by (metis map_of_eq_None_iff not_Some_eq set_map)
  then show ?thesis by (simp add: map_of_SomeD)
qed

lemma map_of_keyed:
  "map_of (map (\<lambda>k. (k, f k)) ks) k = (if k \<in> set ks then Some (f k) else None)"
  by (induction ks) auto

lemma map_of_sorted_pairs:
  "map_of (map (\<lambda>k. (k, the (map_of ts k))) (sort (map fst ts))) = map_of ts"
proof
  fix k
  show "map_of (map (\<lambda>k. (k, the (map_of ts k))) (sort (map fst ts))) k = map_of ts k"
  proof (cases "k \<in> set (map fst ts)")
    case True
    then obtain t where "map_of ts k = Some t"
      by (metis map_of_eq_None_iff not_Some_eq set_map)
    with True show ?thesis by (simp add: map_of_keyed)
  next
    case False
    then have "map_of ts k = None" by (simp add: map_of_eq_None_iff)
    with False show ?thesis by (simp add: map_of_keyed)
  qed
qed

lemma DATA_FILE_files [simp]: "DATA_FILE (w\<lparr>files := f\<rparr>) = DATA_FILE w"
  by (simp add: DATA_FILE_def)

lemma load_after_persist:
  assumes inv: "tasks_inv (interp (world s)) (tasks s)"
    and wr: "can_write (world s) (DATA_FILE (world s))"
    and rd: "can_read (world s) (DATA_FILE (world s))"
    and enc: "list_all (\<lambda>(k, t). encodable (interp (world s)) (JObj t)) (tasks s)"
  shows "tasks (snd (load_state (snd (persist s)))) =
    map (\<lambda>k. (k, the (map_of (tasks s) k))) (sort (map fst (tasks s)))"
proof -
  define ip where "ip = interp (world s)"
  define ps where "ps = map (\<lambda>k. (k, the (map_of (tasks s) k))) (sort (map fst (tasks s)))"
  define raw where "raw = map (\<lambda>(k, t). JObj t) ps"
  define w1 where
    "w1 = (world s)\<lparr>files := (files (world s))(DATA_FILE (world s) := File (JsonDoc (JArr raw)))\<rparr>"
  have raw_eq: "map JObj (map (\<lambda>k. the (map_of (tasks s) k)) (sort (map fst (tasks s)))) = raw"
    by (simp add: raw_def ps_def comp_def)
  have p: "persist s = (Inr (), s\<lparr>world := w1\<rparr>)"
    using persist_ok [OF wr enc] by (simp only: raw_eq w1_def)
  have "can_read w1 (DATA_FILE (world s))"
    using rd by (simp add: can_read_def w1_def)
  moreover have "files w1 (DATA_FILE (world s)) = File (JsonDoc (JArr raw))"
    by (simp add: w1_def)
  ultimately have lt: "load_tasks (DATA_FILE (world s)) w1 = (Inr raw, w1)"
    by (rule load_tasks_array)
  have df: "DATA_FILE w1 = DATA_FILE (world s)" and ipw: "interp w1 = ip"
    by (simp_all add: w1_def ip_def)
  have "list_all (\<lambda>(k, t). coerce_id ip (JObj t) = Inr k) ps"
    using inv sorted_pairs_in [of _ "tasks s"]
    by (fastforce simp: tasks_inv_def list_all_iff ps_def ip_def)
  moreover have "distinct (map fst [] @ map fst ps)"
    using inv by (simp add: tasks_inv_def comp_def ps_def)
  ultimately have "fold (load_step ip) (map (\<lambda>(k, t). JObj t) ps) [] = [] @ ps"
    by (rule fold_load_step_pairs)
  then have "fold (load_step ip) raw [] = ps"
    by (simp add: raw_def)
  then have "tasks (snd (load_state (s\<lparr>world := w1\<rparr>))) = ps"
    by (simp add: load_state_def df lt ipw)
  then show ?thesis
    by (simp add: p ps_def)
qed

subsection \<open>The operations of the store\<close>

lemma now_iso_eq: "now_iso w = (isoformat (clock w (ticks w)), w\<lparr>ticks := Suc (ticks w)\<rparr>)"
  by (simp add: now_iso_def now_def)

lemma persist_case:
  "(case persist s of (Inl e, s3) \<Rightarrow> (Inl e, s3) | (Inr u, s3) \<Rightarrow> (Inr x, s3)) =
     (Inr x, snd (persist s))"
  using persist_returns [of s] by (cases "persist s") (auto split: sum.splits)

lemma add_task_eq:
  "add_task title description done s =
     (Inr (new_task s title description done), snd (persist (added s title description done)))"
  by (simp add: add_task_def now_iso_eq new_task_def added_def Let_def persist_case)

lemma edit_task_absent:
  "map_of (tasks s) task_id = None \<Longrightarrow> edit_task task_id title description done s = (Inr False, s)"
  by (simp add: edit_task_def)

lemma edit_task_present:
  assumes "map_of (tasks s) task_id = Some t" and "t \<noteq> []"
  shows "edit_task task_id title description done s =
     (Inr True, snd (persist (edited s task_id t title description done)))"
  using assms
  by (simp add: edit_task_def now_iso_eq edited_task_def edited_def Let_def persist_case)

lemma delete_task_absent:
  "task_id \<notin> set (map fst (tasks s)) \<Longrightarrow> delete_task task_id s = (Inr False, s)"
  by (simp add: delete_task_def)

lemma delete_task_present:
  assumes "task_id \<in> set (map fst (tasks s))"
  shows "delete_task task_id s =
     (Inr True, snd (persist (s\<lparr>tasks := AList.delete task_id (tasks s)\<rparr>)))"
  using assms by (simp add: delete_task_def persist_case)

lemma inv_nonempty:
  assumes "tasks_inv ip ts" and "map_of ts k = Some t"
  shows "t \<noteq> []"
proof
  assume "t = []"
  moreover have "coerce_id ip (JObj t) = Inr k"
    using assms by (auto simp: tasks_inv_def list_all_iff dest: map_of_SomeD)
  ultimately show False
    by (simp add: coerce_id_def subscript_def)
qed

lemma coerce_new_task: "coerce_id ip (JObj (new_task s ti de dn)) = Inr (next_id s)"
  by (simp add: coerce_id_def subscript_def new_task_def py_int_def)

lemma map_of_edited_id:
  "map_of (edited_task s t ti de dn) (str ''id'') = map_of t (str ''id'')"
  by (simp add: edited_task_def update_conv')

lemma coerce_edited: "coerce_id ip (JObj (edited_task s t ti de dn)) = coerce_id ip (JObj t)"
  by (simp add: coerce_id_def subscript_def map_of_edited_id)

lemma store_inv_added:
  assumes "store_inv s"
  shows "store_inv (added s ti de dn)"
proof -
  have "tasks_inv (interp (world s)) (tasks (added s ti de dn))"
    using assms by (simp add: added_def store_inv_def tasks_inv_update coerce_new_task)
  moreover have "list_all (\<lambda>(k, t). k < next_id s + 1) (AList.update (next_id s) (new_task s ti de dn) (tasks s))"
    using assms set_update_subset [of "next_id s" "new_task s ti de dn" "tasks s"]
    by (fastforce simp: store_inv_def list_all_iff)
  ultimately show ?thesis
    by (simp add: store_inv_def added_def)
qed

lemma store_inv_edited:
  assumes "store_inv s" and "map_of (tasks s) i = Some t"
  shows "store_inv (edited s i t ti de dn)"
proof -
  have c: "coerce_id (interp (world s)) (JObj t) = Inr i"
    using assms by (auto simp: store_inv_def tasks_inv_def list_all_iff dest: map_of_SomeD)
  have "tasks_inv (interp (world s)) (tasks (edited s i t ti de dn))"
    using assms(1) by (simp add: edited_def store_inv_def tasks_inv_update coerce_edited c)
  moreover have "i < next_id s"
    using assms by (auto simp: store_inv_def list_all_iff dest: map_of_SomeD)
  then have "list_all (\<lambda>(k, t). k < next_id s) (AList.update i (edited_task s t ti de dn) (tasks s))"
    using assms(1) set_update_subset [of i "edited_task s t ti de dn" "tasks s"]
    by (fastforce simp: store_inv_def list_all_iff)
  ultimately show ?thesis
    by (simp add: store_inv_def edited_def)
qed

lemma store_inv_deleted:
  assumes "store_inv s"
  shows "store_inv (s\<lparr>tasks := AList.delete i (tasks s)\<rparr>)"
proof -
  have "set (AList.delete i (tasks s)) \<subseteq> set (tasks s)"
    by (auto simp: AList.delete_eq)
  then show ?thesis
    using assms by (auto simp: store_inv_def tasks_inv_delete list_all_iff)
qed

lemma store_inv_exec: "store_inv s \<Longrightarrow> store_inv (exec c s)"
proof (cases c)
  case (Add ti de dn)
  assume "store_inv s"
  then show ?thesis
    by (simp add: Add add_task_eq store_inv_persist store_inv_added)
next
  case (Edit i ti de dn)
  assume inv: "store_inv s"
  show ?thesis
  proof (cases "map_of (tasks s) i")
    case None
    then show ?thesis using inv by (simp add: Edit edit_task_absent)
  next
    case (Some t)
    then have "t \<noteq> []" using inv inv_nonempty [of "interp (world s)" "tasks s" i t] by (simp add: store_inv_def)
    with Some inv show ?thesis
      by (simp add: Edit edit_task_present store_inv_persist store_inv_edited)
  qed
next
  case (Delete i)
  assume inv: "store_inv s"
  show ?thesis
  proof (cases "i \<in> set (map fst (tasks s))")
    case True
    then show ?thesis
      using inv by (simp add: Delete delete_task_present store_inv_persist store_inv_deleted)
  next
    case False
    then show ?thesis using inv by (simp add: Delete delete_task_absent)
  qed
qed

lemma store_inv_run: "store_inv s \<Longrightarrow> store_inv (run cs s)"
  unfolding run_def by (induction cs arbitrary: s) (simp_all add: store_inv_exec)

lemma session_inv: "store_inv (run cs (snd (load_state s)))"
  by (simp add: store_inv_run store_inv_load_state)

lemma exec_keeps [simp]:
  "interp (world (exec c s)) = interp (world s)" "here (world (exec c s)) = here (world s)"
proof -
  have "interp (world (exec c s)) = interp (world s) \<and> here (world (exec c s)) = here (world s)"
  proof (cases c)
    case (Add ti de dn)
    then show ?thesis by (simp add: add_task_eq added_def)
  next
    case (Edit i ti de dn)
    show ?thesis
    proof (cases "map_of (tasks s) i")
      case None
      then show ?thesis by (simp add: Edit edit_task_absent)
    next
      case (Some t)
      show ?thesis
      proof (cases "t = []")
        case True
        with Some show ?thesis by (simp add: Edit edit_task_def)
      next
        case False
        with Some show ?thesis by (simp add: Edit edit_task_present edited_def)
      qed
    qed
  next
    case (Delete i)
    then show ?thesis
      by (cases "i \<in> set (map fst (tasks s))")
        (simp_all add: delete_task_present delete_task_absent)
  qed
  then show "interp (world (exec c s)) = interp (world s)"
    "here (world (exec c s)) = here (world s)"
    by simp_all
qed

lemma run_keeps [simp]:
  "interp (world (run cs s)) = interp (world s)" "here (world (run cs s)) = here (world s)"
  unfolding run_def by (induction cs arbitrary: s) simp_all

lemma session_tasks_inv:
  "tasks_inv (interp (world s)) (tasks (run cs (snd (load_state s))))"
  using session_inv [of cs s] by (simp add: store_inv_def)

lemma next_id_exec: "store_inv s \<Longrightarrow> next_id s \<le> next_id (exec c s)"
proof (cases c)
  case (Add ti de dn)
  then show ?thesis by (simp add: add_task_eq added_def)
next
  case (Edit i ti de dn)
  assume inv: "store_inv s"
  show ?thesis
  proof (cases "map_of (tasks s) i")
    case None
    then show ?thesis by (simp add: Edit edit_task_absent)
  next
    case (Some t)
    then have "t \<noteq> []" using inv inv_nonempty [of "interp (world s)" "tasks s" i t] by (simp add: store_inv_def)
    with Some show ?thesis by (simp add: Edit edit_task_present edited_def)
  qed
next
  case (Delete i)
  then show ?thesis
    by (cases "i \<in> set (map fst (tasks s))") (simp_all add: delete_task_present delete_task_absent)
qed

lemma next_id_run: "store_inv s \<Longrightarrow> next_id s \<le> next_id (run cs s)"
proof (induction cs arbitrary: s)
  case Nil
  then show ?case by (simp add: run_def)
next
  case (Cons c cs)
  have "next_id s \<le> next_id (exec c s)" using Cons.prems by (rule next_id_exec)
  also have "\<dots> \<le> next_id (run cs (exec c s))"
    using Cons.prems by (intro Cons.IH store_inv_exec)
  finally show ?case by (simp add: run_def)
qed

subsection \<open>Facts about the examples\<close>

lemma ex_world_interp [simp]: "interp (ex_world fs flt) = ex_interp"
  by (simp add: ex_world_def)

lemma init_state_simps [simp]:
  "world (init_state w) = w" "tasks (init_state w) = []" "next_id (init_state w) = 1"
  by (simp_all add: init_state_def)

text \<open>Integers of one digit can be printed, whatever the limit.\<close>

lemma int_str_small_aux:
  "\<bar>n\<bar> < 10 \<Longrightarrow> (10::int) \<le> A \<Longrightarrow> 10 \<le> B \<Longrightarrow>
   \<not> (L \<and> M \<and> (if n < 0 then A \<le> \<bar>n\<bar> else B \<le> n))"
  by auto

lemma int_str_small: "\<bar>n\<bar> < 10 \<Longrightarrow> \<not> int_str_error ip n"
  unfolding int_str_error_def
  by (rule int_str_small_aux, assumption; rule self_le_power; simp)

lemma surrogate_free_str [simp]: "surrogate_free (str a)"
proof -
  have "\<not> (55296 \<le> (of_char c :: nat) \<and> (of_char c :: nat) \<le> 57343)" for c
    using nat_of_char_less_256 [of c] by linarith
  then show ?thesis
    by (simp add: surrogate_free_def str_def list_all_iff)
qed

lemma ex_task_encodable: "\<bar>i\<bar> < 10 \<Longrightarrow> encodable ip (JObj (ex_task i n))"
  by (simp add: encodable_def ex_task_def int_str_small)

lemma ex_load_tasks12:
  "load_tasks ex_data (ex_world (only_data (JsonDoc ex_doc12)) no_fault) =
     (Inr [JObj (ex_task 1 ''one''), JObj (ex_task 2 ''two'')],
      ex_world (only_data (JsonDoc ex_doc12)) no_fault)"
  by (rule load_tasks_array)
    (simp_all add: can_read_def ex_world_def no_fault_def only_data_def ex_doc12_def)

lemma coerce_ex_task: "coerce_id ip (JObj (ex_task i n)) = Inr i"
  by (simp add: coerce_id_def subscript_def py_int_def ex_task_def)

lemma load_step_JObj:
  "load_step ip (JObj d) ts =
     (case coerce_id ip (JObj d) of Inl e \<Rightarrow> ts | Inr tid \<Rightarrow> AList.update tid d ts)"
  by (simp add: load_step_def split: sum.splits)

lemma ex_load12:
  "tasks (snd (load_state ex_start12)) = [(1, ex_task 1 ''one''), (2, ex_task 2 ''two'')]"
  by (simp add: load_state_def ex_start12_def ex_load_tasks12 load_step_JObj coerce_ex_task)

lemma sort_keys_dom:
  assumes "distinct (map fst ts)"
  shows "sort (map fst ts) = sorted_list_of_set (dom (map_of ts))"
  using assms
  by (simp add: dom_map_of_conv_image_fst sorted_list_of_set_sort_remdups distinct_remdups_id
      flip: set_map)

lemma ex_inv21: "tasks_inv ip (tasks ex_store21)" and ex_inv12: "tasks_inv ip (tasks ex_store12)"
  by (simp_all add: tasks_inv_def ex_store21_def ex_store12_def coerce_ex_task)

lemma ex_enc21: "list_all (\<lambda>(k, t). encodable ip (JObj t)) (tasks ex_store21)"
  and ex_enc12: "list_all (\<lambda>(k, t). encodable ip (JObj t)) (tasks ex_store12)"
  by (simp_all add: ex_store21_def ex_store12_def ex_task_encodable)

lemma keys_bound:
  "store_inv s \<Longrightarrow> k \<in> set (map fst (tasks s)) \<Longrightarrow> k < next_id s"
  by (auto simp: store_inv_def list_all_iff)

lemma next_id_load_state:
  "next_id (snd (load_state s)) =
     (if tasks (snd (load_state s)) = [] then 1
      else Max (set (map fst (tasks (snd (load_state s))))) + 1)"
proof -
  obtain raw w1 where lt: "load_tasks (DATA_FILE (world s)) (world s) = (Inr raw, w1)"
    using load_tasks_returns by blast
  then show ?thesis
    by (simp add: load_state_def recalc_next_id_def)
qed

lemma ex_after_delete:
  "tasks (run [Delete 1] (snd (load_state ex_start12))) = [(2, ex_task 2 ''two'')]"
  by (simp add: run_def delete_task_present ex_load12)

subsection \<open>Loading records with equal ids\<close>

lemma load_step_keys: "fst ` set ts \<subseteq> fst ` set (load_step ip t ts)"
  by (auto simp: load_step_def dom_update split: sum.splits json.splits)

lemma fold_load_step_keys: "fst ` set ts \<subseteq> fst ` set (fold (load_step ip) raw ts)"
proof (induction raw arbitrary: ts)
  case Nil
  show ?case by simp
next
  case (Cons t raw)
  have "fst ` set ts \<subseteq> fst ` set (load_step ip t ts)" by (rule load_step_keys)
  also have "\<dots> \<subseteq> fst ` set (fold (load_step ip) raw (load_step ip t ts))" by (rule Cons.IH)
  finally show ?case by simp
qed

lemma length_update:
  "length (AList.update k v al) = (if k \<in> fst ` set al then length al else Suc (length al))"
  by (induction al) auto

lemma load_step_length: "length (load_step ip t ts) \<le> Suc (length ts)"
  by (simp add: load_step_def length_update split: sum.splits json.splits)

lemma fold_load_step_length: "length (fold (load_step ip) raw ts) \<le> length ts + length raw"
proof (induction raw arbitrary: ts)
  case Nil
  show ?case by simp
next
  case (Cons t raw)
  have "length (fold (load_step ip) raw (load_step ip t ts)) \<le> length (load_step ip t ts) + length raw"
    by (rule Cons.IH)
  also have "\<dots> \<le> Suc (length ts) + length raw"
    using load_step_length [of ip t ts] by simp
  finally show ?case by simp
qed

lemma load_step_other:
  "coerce_id ip t \<noteq> Inr k \<Longrightarrow> map_of (load_step ip t ts) k = map_of ts k"
  by (auto simp: load_step_def update_conv' split: sum.splits json.splits)

lemma fold_load_step_other:
  "\<forall>t \<in> set raw. coerce_id ip t \<noteq> Inr k \<Longrightarrow> map_of (fold (load_step ip) raw ts) k = map_of ts k"
  by (induction raw arbitrary: ts) (simp_all add: load_step_other)

lemma load_step_hit:
  "coerce_id ip (JObj d) = Inr k \<Longrightarrow> load_step ip (JObj d) ts = AList.update k d ts"
  by (simp add: load_step_def)

text \<open>The later of two records with the same id wins, and the store is shorter than the file.\<close>

lemma fold_load_step_dup:
  assumes c1: "coerce_id ip (JObj d1) = Inr k" and c2: "coerce_id ip (JObj d2) = Inr k"
    and zs: "\<forall>t \<in> set zs. coerce_id ip t \<noteq> Inr k"
  shows "map_of (fold (load_step ip) (xs @ JObj d1 # ys @ JObj d2 # zs) []) k = Some d2"
    and "length (fold (load_step ip) (xs @ JObj d1 # ys @ JObj d2 # zs) []) < length (xs @ JObj d1 # ys @ JObj d2 # zs)"
proof -
  define a where "a = fold (load_step ip) xs []"
  define b where "b = fold (load_step ip) ys (AList.update k d1 a)"
  have f: "fold (load_step ip) (xs @ JObj d1 # ys @ JObj d2 # zs) [] =
      fold (load_step ip) zs (AList.update k d2 b)"
    by (simp add: a_def b_def load_step_hit c1 c2)
  show "map_of (fold (load_step ip) (xs @ JObj d1 # ys @ JObj d2 # zs) []) k = Some d2"
    unfolding f using zs by (simp add: fold_load_step_other update_conv')
  have "k \<in> fst ` set (AList.update k d1 a)"
    by (simp add: dom_update)
  then have kb: "k \<in> fst ` set b"
    using fold_load_step_keys [of "AList.update k d1 a" ip ys] by (auto simp: b_def)
  have "length a \<le> length xs"
    using fold_load_step_length [of ip xs "[]"] by (simp add: a_def)
  moreover have "length b \<le> length (AList.update k d1 a) + length ys"
    unfolding b_def by (rule fold_load_step_length)
  moreover have "length (AList.update k d1 a) \<le> Suc (length a)"
    by (simp add: length_update)
  moreover have "length (fold (load_step ip) zs (AList.update k d2 b)) \<le>
      length (AList.update k d2 b) + length zs"
    by (rule fold_load_step_length)
  moreover have "length (AList.update k d2 b) = length b"
    using kb by (simp add: length_update)
  ultimately show "length (fold (load_step ip) (xs @ JObj d1 # ys @ JObj d2 # zs) []) <
      length (xs @ JObj d1 # ys @ JObj d2 # zs)"
    unfolding f by simp
qed

subsection \<open>Stripping, and what a save writes\<close>

lemma dropWhile_all: "list_all P xs \<Longrightarrow> dropWhile P xs = []"
  by (induction xs) simp_all

lemma strip_whitespace: "list_all isspace s \<Longrightarrow> strip s = []"
  by (simp add: strip_def dropWhile_all)

lemma sorted_values_set:
  assumes "distinct (map fst ts)"
  shows "set (map (\<lambda>k. the (map_of ts k)) (sort (map fst ts))) = snd ` set ts"
proof -
  have "the (map_of ts k) = v" if "(k, v) \<in> set ts" for k v
    using assms that by simp
  then have "(\<lambda>k. the (map_of ts k)) ` fst ` set ts = snd ` set ts"
    by (force simp: image_iff)
  then show ?thesis by simp
qed

lemma ex_fresh_world [simp]: "world ex_fresh = ex_world no_files no_fault"
  and ex_fresh_tasks [simp]: "tasks ex_fresh = []"
  and ex_fresh_next [simp]: "next_id ex_fresh = 1"
  by (simp_all add: ex_fresh_def init_state_def)

subsection \<open>The fields of stored tasks\<close>

lemma coerce_id_JInt: "coerce_id ip (JObj ((str ''id'', JInt n) # r)) = Inr n"
  by (simp add: coerce_id_def subscript_def py_int_def)

lemma ex_load_bare:
  "load_state ex_start_bare =
     (Inr (), \<lparr>tasks = [(1, [(str ''id'', JInt 1)])], next_id = 2,
        world = ex_world (only_data (JsonDoc (JArr [JObj [(str ''id'', JInt 1)]]))) no_fault\<rparr>)"
proof -
  let ?w = "ex_world (only_data (JsonDoc (JArr [JObj [(str ''id'', JInt 1)]]))) no_fault"
  have "load_tasks ex_data ?w = (Inr [JObj [(str ''id'', JInt 1)]], ?w)"
    by (rule load_tasks_array) (simp_all add: can_read_def ex_world_def no_fault_def only_data_def)
  then show ?thesis
    by (simp add: load_state_def ex_start_bare_def init_state_def load_step_JObj
        coerce_id_JInt recalc_next_id_def)
qed

lemma six_new_task: "has_six_fields (new_task s ti de dn)"
  by (simp add: has_six_fields_def fieldnames_def new_task_def)

lemma six_edited_task: "has_six_fields t \<Longrightarrow> has_six_fields (edited_task s t ti de dn)"
  by (simp add: has_six_fields_def fieldnames_def edited_task_def dom_update)

lemma six_update:
  assumes "list_all (\<lambda>(k, t). has_six_fields t) ts" and "has_six_fields d"
  shows "list_all (\<lambda>(k, t). has_six_fields t) (AList.update i d ts)"
  using assms set_update_subset [of i d ts] by (fastforce simp: list_all_iff)

lemma six_delete:
  assumes "list_all (\<lambda>(k, t). has_six_fields t) ts"
  shows "list_all (\<lambda>(k, t). has_six_fields t) (AList.delete i ts)"
  using assms by (auto simp: list_all_iff AList.delete_eq)

lemma six_exec:
  assumes "list_all (\<lambda>(k, t). has_six_fields t) (tasks s)"
  shows "list_all (\<lambda>(k, t). has_six_fields t) (tasks (exec c s))"
proof (cases c)
  case (Add ti de dn)
  then show ?thesis
    using assms by (simp add: add_task_eq added_def six_update six_new_task)
next
  case (Edit i ti de dn)
  show ?thesis
  proof (cases "map_of (tasks s) i")
    case None
    then show ?thesis using assms by (simp add: Edit edit_task_absent)
  next
    case (Some t)
    show ?thesis
    proof (cases "t = []")
      case True
      with Some show ?thesis using assms by (simp add: Edit edit_task_def)
    next
      case False
      have "has_six_fields t"
        using assms Some by (auto simp: list_all_iff dest: map_of_SomeD)
      with Some False assms show ?thesis
        by (simp add: Edit edit_task_present edited_def six_update six_edited_task)
    qed
  qed
next
  case (Delete i)
  then show ?thesis
    using assms
    by (cases "i \<in> set (map fst (tasks s))")
      (simp_all add: delete_task_present delete_task_absent six_delete)
qed

lemma load_step_from_raw:
  "set (load_step ip t ts) \<subseteq> set ts \<union> {(k, d). t = JObj d \<and> coerce_id ip t = Inr k}"
  using set_update_subset by (fastforce simp: load_step_def split: sum.splits json.splits)

lemma fold_load_step_from_raw:
  "set (fold (load_step ip) raw ts) \<subseteq> set ts \<union> {(k, d). JObj d \<in> set raw \<and> coerce_id ip (JObj d) = Inr k}"
proof (induction raw arbitrary: ts)
  case Nil
  show ?case by simp
next
  case (Cons t raw)
  have "set (fold (load_step ip) raw (load_step ip t ts)) \<subseteq>
      set (load_step ip t ts) \<union> {(k, d). JObj d \<in> set raw \<and> coerce_id ip (JObj d) = Inr k}"
    by (rule Cons.IH)
  with load_step_from_raw [of ip t ts] show ?case by auto
qed

text \<open>The last record of the file that coerces to an id is the one stored under it.\<close>

lemma fold_load_step_last:
  assumes "coerce_id ip (JObj d) = Inr k" and "\<forall>t \<in> set zs. coerce_id ip t \<noteq> Inr k"
  shows "map_of (fold (load_step ip) (xs @ JObj d # zs) ts) k = Some d"
  using assms by (simp add: fold_load_step_other load_step_hit update_conv')

subsection \<open>Exceptions\<close>

lemma edit_task_returns: "\<exists>b. fst (edit_task i ti de dn s) = Inr b"
  by (auto simp: edit_task_def now_iso_eq Let_def persist_case split: option.splits)

lemma delete_task_returns: "\<exists>b. fst (delete_task i s) = Inr b"
  by (auto simp: delete_task_def persist_case)

lemma export_json_mkdir_fails:
  "fst (ensure_export_dir (world s)) = Inl e \<Longrightarrow> fst (export_json s) = Inl e"
  by (cases "ensure_export_dir (world s)") (simp add: export_json_def)

lemma export_csv_mkdir_fails:
  "fst (ensure_export_dir (world s)) = Inl e \<Longrightarrow> fst (export_csv s) = Inl e"
  by (cases "ensure_export_dir (world s)") (simp add: export_csv_def)

lemma save_tasks_Inr: "\<exists>w1. save_tasks p l w = (Inr (), w1)"
  using save_tasks_returns [of p l w] by (cases "save_tasks p l w") auto

lemma timestamp_eq: "timestamp w = (strftime (clock w (ticks w)), w\<lparr>ticks := Suc (ticks w)\<rparr>)"
  by (simp add: timestamp_def now_def)

lemma export_json_mkdir_ok:
  assumes "fst (ensure_export_dir (world s)) = Inr ()"
  shows "\<exists>p. fst (export_json s) = Inr p"
proof -
  obtain w1 where m: "ensure_export_dir (world s) = (Inr (), w1)"
    using assms by (cases "ensure_export_dir (world s)") simp
  define w2 where "w2 = w1\<lparr>ticks := Suc (ticks w1)\<rparr>"
  define p where
    "p = path_join (EXPORT_DIR w2) (str ''tasks_'' @ strftime (clock w1 (ticks w1)) @ str ''.json'')"
  obtain w3 where sv: "save_tasks p (map (\<lambda>k. the (map_of (tasks s) k))
      (sort (map fst (tasks s)))) w2 = (Inr (), w3)"
    using save_tasks_Inr by blast
  have "export_json s = (Inr p, s\<lparr>world := w3\<rparr>)"
    by (simp add: export_json_def m timestamp_eq as_list_eq Let_def sv
        flip: w2_def p_def)
  then show ?thesis by simp
qed

lemma ex_no_mkdir:
  "fst (ensure_export_dir (world (init_state (ex_world no_files no_mkdir)))) = Inl OSError"
  by (simp add: ensure_export_dir_def makedirs_def init_state_def)
    (simp add: ex_world_def no_mkdir_def)

subsection \<open>The CSV export\<close>

lemma path_join_neq: "b \<noteq> [] \<Longrightarrow> hd b \<noteq> 47 \<Longrightarrow> path_join a b \<noteq> a"
  by (simp add: path_join_def)

lemma EXPORT_DIR_upd [simp]:
  "EXPORT_DIR (w\<lparr>files := f\<rparr>) = EXPORT_DIR w" "EXPORT_DIR (w\<lparr>ticks := n\<rparr>) = EXPORT_DIR w"
  by (simp_all add: EXPORT_DIR_def)

lemma makedirs_ok:
  assumes "fault w MakeDirs p = None" and "\<forall>c. files w p \<noteq> File c"
  shows "makedirs p w = (Inr (), w\<lparr>files := (files w)(p := Dir)\<rparr>)"
proof (cases "files w p")
  case Absent
  then show ?thesis using assms by (simp add: makedirs_def)
next
  case Dir
  then have "(files w)(p := Dir) = files w" by auto
  with Dir show ?thesis using assms by (simp add: makedirs_def)
next
  case (File c)
  then show ?thesis using assms by simp
qed

lemma fieldnames_ok: "list_all surrogate_free fieldnames"
  by (simp add: fieldnames_def)

lemma export_csv_ok:
  assumes mk: "fault (world s) MakeDirs (EXPORT_DIR (world s)) = None"
      "\<forall>c. files (world s) (EXPORT_DIR (world s)) \<noteq> File c"
    and path: "path = path_join (EXPORT_DIR (world s))
        (str ''tasks_'' @ strftime (clock (world s) (ticks (world s))) @ str ''.csv'')"
    and wr: "can_write (world s) path"
    and rows: "rows = map csv_row (map (\<lambda>k. the (map_of (tasks s) k)) (sort (map fst (tasks s))))"
    and enc: "list_all (\<lambda>row. row_error (interp (world s)) row = None) rows"
  shows "export_csv s =
      (Inr path, s\<lparr>world := (world s)\<lparr>files := (files (world s))
          (EXPORT_DIR (world s) := Dir, path := File (CsvDoc fieldnames rows)),
        ticks := Suc (ticks (world s))\<rparr>\<rparr>)"
proof -
  define w where "w = world s"
  define d where "d = EXPORT_DIR w"
  define w1 where "w1 = w\<lparr>files := (files w)(d := Dir)\<rparr>"
  define w2 where "w2 = w1\<lparr>ticks := Suc (ticks w1)\<rparr>"
  define w3 where "w3 = w2\<lparr>files := (files w2)(path := File Truncated)\<rparr>"
  define w4 where "w4 = w3\<lparr>files := (files w3)(path := File (CsvDoc fieldnames rows))\<rparr>"
  have pd: "path \<noteq> d"
    unfolding path d_def w_def by (rule path_join_neq) (simp_all add: str_def)
  have m: "ensure_export_dir w = (Inr (), w1)"
    using mk by (simp add: ensure_export_dir_def makedirs_ok w_def w1_def d_def)
  have ts: "timestamp w1 = (strftime (clock w (ticks w)), w2)"
    by (simp add: timestamp_eq w1_def w2_def)
  have p2: "path_join (EXPORT_DIR w2) (str ''tasks_'' @ strftime (clock w (ticks w)) @ str ''.csv'') = path"
    by (simp add: path w_def w2_def w1_def)
  have ow: "open_write path w2 = (Inr (), w3)"
    using wr pd by (auto simp: open_write_def can_write_def w_def w1_def w2_def w3_def
        split: node.splits)
  have "first_error (None # map (row_error (interp w3)) rows) = None"
    using enc by (simp add: first_error_None list_all_iff w_def w1_def w2_def w3_def)
  then have cw: "csv_write path fieldnames rows w3 = (Inr (), w4)"
    using wr by (simp add: csv_write_def can_write_def fieldnames_ok w_def w1_def w2_def
        w3_def w4_def)
  have rows': "map (csv_row \<circ> (\<lambda>k. the (map_of (tasks s) k))) (sort (map fst (tasks s))) = rows"
    by (simp add: rows)
  have "export_csv s = (Inr path, s\<lparr>world := w4\<rparr>)"
    by (simp add: export_csv_def m ts p2 ow as_list_eq rows' cw Let_def flip: w_def)
  moreover have "w4 = w\<lparr>files := (files w)(d := Dir, path := File (CsvDoc fieldnames rows)),
        ticks := Suc (ticks w)\<rparr>"
    by (simp add: w4_def w3_def w2_def w1_def)
  ultimately show ?thesis
    by (simp add: w_def d_def)
qed

lemma rows_encodable:
  assumes "list_all (\<lambda>(k, t). row_error ip (csv_row t) = None) ts"
  shows "list_all (\<lambda>row. row_error ip row = None)
     (map csv_row (map (\<lambda>k. the (map_of ts k)) (sort (map fst ts))))"
proof -
  have "row_error ip (csv_row (the (map_of ts k))) = None" if "k \<in> set (map fst ts)" for k
    using assms sorted_pairs_in [OF that] by (auto simp: list_all_iff)
  then show ?thesis
    by (simp add: list_all_iff)
qed

lemma ex_csv_path_eq:
  "path_join (EXPORT_DIR (world ex_store_partial))
     (str ''tasks_'' @ strftime (clock (world ex_store_partial) (ticks (world ex_store_partial)))
        @ str ''.csv'') = ex_csv_path"
  by (simp add: ex_store_partial_def ex_world_def EXPORT_DIR_def path_join_def ex_csv_path_def
      str_def)

section \<open>The storage adapter's load\<close>

text \<open>
  Claim C2.  For every path and every world, \<open>load_tasks\<close> returns normally.  When the
  file at the path can be opened and holds a JSON array, the result is that array and
  nothing else happens.  When the file does not exist, when its content is not valid
  JSON, or when the parsed document is not an array, the result is the empty list.
\<close>

theorem load_tasks_contract:
  "(\<exists>xs w1. load_tasks path w = (Inr xs, w1)) \<and>
   (can_read w path \<and> files w path = File (JsonDoc (JArr ys)) \<longrightarrow>
      load_tasks path w = (Inr ys, w)) \<and>
   (files w path = Absent \<longrightarrow> load_tasks path w = (Inr [], w)) \<and>
   (files w path = File c \<and> json_load c = Inl JSONDecodeError \<longrightarrow>
      fst (load_tasks path w) = Inr []) \<and>
   (files w path = File (JsonDoc v) \<and> (\<forall>xs. v \<noteq> JArr xs) \<longrightarrow>
      fst (load_tasks path w) = Inr [])"
proof (intro conjI impI)
  show "\<exists>xs w1. load_tasks path w = (Inr xs, w1)"
    by (rule load_tasks_returns)
next
  assume "can_read w path \<and> files w path = File (JsonDoc (JArr ys))"
  then show "load_tasks path w = (Inr ys, w)"
    by (simp add: load_tasks_array)
next
  assume "files w path = Absent"
  then show "load_tasks path w = (Inr [], w)"
    by (rule load_tasks_absent)
next
  assume a: "files w path = File c \<and> json_load c = Inl JSONDecodeError"
  then have "\<forall>xs. c \<noteq> JsonDoc (JArr xs)"
    by (auto simp: json_load_def)
  with a show "fst (load_tasks path w) = Inr []"
    by (simp add: load_tasks_empty_cases)
next
  assume "files w path = File (JsonDoc v) \<and> (\<forall>xs. v \<noteq> JArr xs)"
  then show "fst (load_tasks path w) = Inr []"
    by (simp add: load_tasks_empty_cases)
qed

theorem load_tasks_contract_witness:
  "load_tasks ex_data (ex_world (only_data (JsonDoc (JArr [JInt 7]))) no_fault) =
     (Inr [JInt 7], ex_world (only_data (JsonDoc (JArr [JInt 7]))) no_fault) \<and>
   load_tasks ex_data (ex_world no_files no_fault) = (Inr [], ex_world no_files no_fault) \<and>
   fst (load_tasks ex_data (ex_world (only_data NotJson) no_fault)) = Inr [] \<and>
   fst (load_tasks ex_data (ex_world (only_data (JsonDoc (JObj []))) no_fault)) = Inr []"
  using
    load_tasks_contract [of ex_data "ex_world (only_data (JsonDoc (JArr [JInt 7]))) no_fault"
      "[JInt 7]" NotJson JNull]
    load_tasks_contract [of ex_data "ex_world no_files no_fault" "[]" NotJson JNull]
    load_tasks_contract [of ex_data "ex_world (only_data NotJson) no_fault" "[]" NotJson JNull]
    load_tasks_contract [of ex_data "ex_world (only_data (JsonDoc (JObj []))) no_fault" "[]"
      NotJson "JObj []"]
  by (simp add: ex_world_def only_data_def no_files_def no_fault_def can_read_def json_load_def)

section \<open>Diagnostics of a degraded load\<close>

text \<open>
  Claim C7 says that each of the three degraded conditions of a load (no file, invalid
  JSON, not an array) prints a message.  A missing file prints nothing: after the load the
  world, standard output included, is what it was.
\<close>

theorem load_missing_file_is_silent:
  "files (ex_world no_files no_fault) ex_data = Absent \<and>
   load_tasks ex_data (ex_world no_files no_fault) = (Inr [], ex_world no_files no_fault) \<and>
   stdout (snd (load_tasks ex_data (ex_world no_files no_fault))) = []"
  by (simp add: load_tasks_def path_exists_def ex_world_def no_files_def)

text \<open>
  Claim C7, amended.  Content that is not valid JSON and a document that is not an array
  each print exactly one message and return the empty list; the two messages differ
  whatever the paths.  A missing file returns the empty list and prints nothing.
\<close>

theorem load_tasks_diagnostics:
  "(can_read w path \<and> files w path = File c \<and> json_load c = Inl JSONDecodeError \<longrightarrow>
      load_tasks path w = (Inr [], w\<lparr>stdout := stdout w @ [msg_corrupt path]\<rparr>)) \<and>
   (can_read w path \<and> files w path = File (JsonDoc v) \<and> (\<forall>xs. v \<noteq> JArr xs) \<longrightarrow>
      load_tasks path w = (Inr [], w\<lparr>stdout := stdout w @ [msg_not_list path]\<rparr>)) \<and>
   msg_corrupt path \<noteq> msg_not_list path' \<and>
   (files w path = Absent \<longrightarrow> load_tasks path w = (Inr [], w))"
  by (simp add: load_tasks_corrupt load_tasks_not_list load_tasks_absent
      msg_corrupt_neq_not_list print_def)

theorem load_tasks_diagnostics_witness:
  "stdout (snd (load_tasks ex_data (ex_world (only_data NotJson) no_fault))) =
     [msg_corrupt ex_data] \<and>
   stdout (snd (load_tasks ex_data (ex_world (only_data (JsonDoc (JObj []))) no_fault))) =
     [msg_not_list ex_data] \<and>
   stdout (snd (load_tasks ex_data (ex_world no_files no_fault))) = []"
  using
    load_tasks_diagnostics [of "ex_world (only_data NotJson) no_fault" ex_data NotJson JNull]
    load_tasks_diagnostics [of "ex_world (only_data (JsonDoc (JObj []))) no_fault" ex_data
      NotJson "JObj []"]
    load_tasks_diagnostics [of "ex_world no_files no_fault" ex_data NotJson JNull]
  by (simp add: ex_world_def only_data_def no_files_def no_fault_def can_read_def json_load_def)

subsection \<open>A record that cannot be written back\<close>

lemma ex_load_sur:
  "load_state ex_start_sur =
     (Inr (), \<lparr>tasks = [(1, ex_rec_sur)], next_id = 2,
        world = ex_world (only_data (JsonDoc (JArr [JObj ex_rec_sur]))) no_fault\<rparr>)"
proof -
  let ?w = "ex_world (only_data (JsonDoc (JArr [JObj ex_rec_sur]))) no_fault"
  have "load_tasks ex_data ?w = (Inr [JObj ex_rec_sur], ?w)"
    by (rule load_tasks_array) (simp_all add: can_read_def ex_world_def no_fault_def only_data_def)
  moreover have "coerce_id ip (JObj ex_rec_sur) = Inr 1" for ip
    by (simp add: ex_rec_sur_def coerce_id_JInt)
  ultimately show ?thesis
    by (simp add: load_state_def ex_start_sur_def load_step_JObj recalc_next_id_def)
qed

lemma ex_dump_sur: "dump_error ip (JArr [JObj ex_rec_sur]) = Some UnicodeEncodeError"
  by (simp add: ex_rec_sur_def int_str_small surrogate_free_def)

lemma ex_persist_sur:
  "persist (snd (load_state ex_start_sur)) =
     (Inr (), \<lparr>tasks = [(1, ex_rec_sur)], next_id = 2,
        world = (ex_world ((only_data (JsonDoc (JArr [JObj ex_rec_sur])))(ex_data := File Truncated))
          no_fault)\<lparr>stdout := [msg_write_error (ex_world no_files no_fault) ex_data
            UnicodeEncodeError]\<rparr>\<rparr>)"
proof -
  let ?f = "only_data (JsonDoc (JArr [JObj ex_rec_sur]))"
  have o: "open_write ex_data (ex_world ?f no_fault) =
      (Inr (), ex_world (?f(ex_data := File Truncated)) no_fault)"
    by (simp add: open_write_def ex_world_def no_fault_def only_data_def)
  have j: "json_dump ex_data (JArr [JObj ex_rec_sur]) (ex_world (?f(ex_data := File Truncated)) no_fault) =
      (Inl UnicodeEncodeError, ex_world (?f(ex_data := File Truncated)) no_fault)"
    unfolding json_dump_def ex_world_interp ex_dump_sur by (simp add: ex_world_def no_fault_def)
  have m: "msg_write_error (ex_world (?f(ex_data := File Truncated)) no_fault) ex_data
      UnicodeEncodeError = msg_write_error (ex_world no_files no_fault) ex_data UnicodeEncodeError"
    by (simp add: msg_write_error_def ex_world_def)
  have "save_tasks ex_data [ex_rec_sur] (ex_world ?f no_fault) =
      (Inr (), print (msg_write_error (ex_world (?f(ex_data := File Truncated)) no_fault) ex_data
         UnicodeEncodeError) (ex_world (?f(ex_data := File Truncated)) no_fault))"
    by (simp add: save_tasks_def save_tasks_try_def o j)
  then have s: "save_tasks ex_data [ex_rec_sur] (ex_world ?f no_fault) =
      (Inr (), (ex_world (?f(ex_data := File Truncated)) no_fault)\<lparr>stdout :=
         [msg_write_error (ex_world no_files no_fault) ex_data UnicodeEncodeError]\<rparr>)"
    unfolding m by (simp add: print_def ex_world_def)
  show ?thesis
    by (simp add: ex_load_sur persist_def as_list_def getitem_def s)
qed

lemma ex_reload_sur: "tasks (snd (load_state (snd (persist (snd (load_state ex_start_sur)))))) = []"
proof -
  define w where "w = (ex_world ((only_data (JsonDoc (JArr [JObj ex_rec_sur])))(ex_data := File Truncated))
          no_fault)\<lparr>stdout := [msg_write_error (ex_world no_files no_fault) ex_data
            UnicodeEncodeError]\<rparr>"
  define s1 where "s1 = \<lparr>tasks = [(1, ex_rec_sur)], next_id = 2, world = w\<rparr>"
  have p: "snd (persist (snd (load_state ex_start_sur))) = s1"
    unfolding ex_persist_sur s1_def w_def by simp
  have d: "DATA_FILE (world s1) = ex_data"
    using DATA_FILE_ex by (simp add: DATA_FILE_def ex_world_def s1_def w_def)
  have "load_tasks ex_data w = (Inr [], print (msg_corrupt ex_data) w)"
    by (rule load_tasks_corrupt [where c = Truncated])
      (simp_all add: can_read_def ex_world_def no_fault_def json_load_def w_def)
  then have "load_tasks (DATA_FILE (world s1)) (world s1) = (Inr [], print (msg_corrupt ex_data) w)"
    unfolding d by (simp add: s1_def)
  then have "tasks (snd (load_state s1)) = []"
    by (simp add: load_state_def recalc_next_id_def)
  then show ?thesis
    unfolding p .
qed

section \<open>Round trip through the data file\<close>

text \<open>
  Claim C3 says that for every store state \<open>persist\<close> followed by a load reproduces the
  tasks.  It does not when a record cannot be written back.  The data file
  \<open>[{"id": 1, "title": "\ud800"}]\<close> loads into a store with task 1, whose title is a lone
  surrogate; \<open>persist\<close> on that store opens the data file, which empties it, fails to
  encode the title, prints a message and returns; the data file is left cut, and the next
  load yields no task at all.
\<close>

theorem persist_surrogate_loses_tasks:
  "tasks (snd (load_state ex_start_sur)) = [(1, ex_rec_sur)] \<and>
   fst (persist (snd (load_state ex_start_sur))) = Inr () \<and>
   files (world (snd (persist (snd (load_state ex_start_sur))))) ex_data = File Truncated \<and>
   stdout (world (snd (persist (snd (load_state ex_start_sur))))) =
     [msg_write_error (ex_world no_files no_fault) ex_data UnicodeEncodeError] \<and>
   tasks (snd (load_state (snd (persist (snd (load_state ex_start_sur)))))) = []"
proof -
  have "tasks (snd (load_state ex_start_sur)) = [(1, ex_rec_sur)]"
    unfolding ex_load_sur by simp
  moreover have "fst (persist (snd (load_state ex_start_sur))) = Inr ()"
    unfolding ex_persist_sur by simp
  moreover have "files (world (snd (persist (snd (load_state ex_start_sur))))) ex_data =
      File Truncated"
    unfolding ex_persist_sur by (simp add: ex_world_def)
  moreover have "stdout (world (snd (persist (snd (load_state ex_start_sur))))) =
      [msg_write_error (ex_world no_files no_fault) ex_data UnicodeEncodeError]"
    unfolding ex_persist_sur by simp
  ultimately show ?thesis
    using ex_reload_sur by simp
qed

text \<open>
  Claim C3, amended.  Take a store that satisfies the invariant of the program's states
  (every state of a session does: \<open>session_tasks_inv\<close>) and whose records can all be
  written as JSON (no string with a lone surrogate, no integer beyond the interpreter's
  digit limit), in a world where the data file can be written and read.  After \<open>persist\<close>,
  \<open>load_state\<close> yields a store that maps the same ids to the same records, in ascending
  order of id; and a second store with the same mapping, whatever the order in which its
  tasks were inserted, yields the very same store.
\<close>

theorem persist_load_roundtrip:
  assumes "tasks_inv (interp (world s)) (tasks s)"
    and "can_write (world s) (DATA_FILE (world s))"
    and "can_read (world s) (DATA_FILE (world s))"
    and "list_all (\<lambda>(k, t). encodable (interp (world s)) (JObj t)) (tasks s)"
    and "tasks_inv (interp (world s')) (tasks s')"
    and "map_of (tasks s') = map_of (tasks s)"
    and "world s' = world s"
  shows "map_of (tasks (snd (load_state (snd (persist s))))) = map_of (tasks s) \<and>
         sorted (map fst (tasks (snd (load_state (snd (persist s)))))) \<and>
         tasks (snd (load_state (snd (persist s')))) = tasks (snd (load_state (snd (persist s))))"
proof -
  have d: "distinct (map fst (tasks s))" and d': "distinct (map fst (tasks s'))"
    using assms(1,5) by (simp_all add: tasks_inv_def)
  have l: "tasks (snd (load_state (snd (persist s)))) =
      map (\<lambda>k. (k, the (map_of (tasks s) k))) (sort (map fst (tasks s)))"
    using assms(1-4) by (rule load_after_persist)
  have "set (tasks s') = set (tasks s)"
    using d d' assms(6) by (simp add: map_of_inject_set)
  then have enc': "list_all (\<lambda>(k, t). encodable (interp (world s')) (JObj t)) (tasks s')"
    using assms(4,7) by (simp add: list_all_iff)
  have l': "tasks (snd (load_state (snd (persist s')))) =
      map (\<lambda>k. (k, the (map_of (tasks s') k))) (sort (map fst (tasks s')))"
    using assms(2,3,5,7) enc' by (intro load_after_persist) simp_all
  have "sort (map fst (tasks s')) = sort (map fst (tasks s))"
    using d d' assms(6) by (simp add: sort_keys_dom)
  with l l' assms(6) have "tasks (snd (load_state (snd (persist s')))) =
      tasks (snd (load_state (snd (persist s))))"
    by simp
  moreover have "map_of (tasks (snd (load_state (snd (persist s))))) = map_of (tasks s)"
    by (simp add: l map_of_sorted_pairs)
  moreover have "sorted (map fst (tasks (snd (load_state (snd (persist s))))))"
    by (simp add: l comp_def)
  ultimately show ?thesis by simp
qed

theorem persist_load_roundtrip_witness:
  "tasks_inv (interp (world ex_store21)) (tasks ex_store21) \<and>
   list_all (\<lambda>(k, t). encodable (interp (world ex_store21)) (JObj t)) (tasks ex_store21) \<and>
   map_of (tasks (snd (load_state (snd (persist ex_store21))))) = map_of (tasks ex_store21) \<and>
   sorted (map fst (tasks (snd (load_state (snd (persist ex_store21)))))) \<and>
   tasks (snd (load_state (snd (persist ex_store12)))) =
     tasks (snd (load_state (snd (persist ex_store21))))"
proof -
  have "can_write (world ex_store21) (DATA_FILE (world ex_store21))"
    "can_read (world ex_store21) (DATA_FILE (world ex_store21))"
    by (simp_all add: can_write_def can_read_def ex_store21_def ex_world_def no_fault_def
        no_files_def)
  moreover have "map_of (tasks ex_store12) = map_of (tasks ex_store21)"
    by (auto simp: ex_store12_def ex_store21_def)
  moreover have "world ex_store12 = world ex_store21"
    by (simp add: ex_store12_def ex_store21_def)
  ultimately have "map_of (tasks (snd (load_state (snd (persist ex_store21))))) =
      map_of (tasks ex_store21) \<and>
    sorted (map fst (tasks (snd (load_state (snd (persist ex_store21)))))) \<and>
    tasks (snd (load_state (snd (persist ex_store12)))) =
      tasks (snd (load_state (snd (persist ex_store21))))"
    using ex_inv21 ex_inv12 ex_enc21 by (intro persist_load_roundtrip) simp_all
  then show ?thesis
    using ex_inv21 ex_enc21 by simp
qed

subsection \<open>What \<open>persist\<close> does to the world\<close>

lemma persist_written:
  assumes "can_write (world s) (DATA_FILE (world s))"
    and "as_list (tasks s) = Inr l"
    and "encodable (interp (world s)) (JArr (map JObj l))"
  shows "world (snd (persist s)) =
    (world s)\<lparr>files := (files (world s))(DATA_FILE (world s) := File (JsonDoc (JArr (map JObj l))))\<rparr>"
  using save_tasks_ok [OF assms(1,3)] assms(2) by (simp add: persist_def)

lemma persist_failed:
  assumes "as_list (tasks s) = Inr l"
    and "\<not> (can_write (world s) (DATA_FILE (world s)) \<and>
           encodable (interp (world s)) (JArr (map JObj l)))"
  shows "\<exists>e. stdout (world (snd (persist s))) =
        stdout (world s) @ [msg_write_error (world s) (DATA_FILE (world s)) e] \<and>
      (files (world (snd (persist s))) = files (world s) \<or>
       files (world (snd (persist s))) = (files (world s))(DATA_FILE (world s) := File Truncated))"
proof -
  have "world (snd (persist s)) = snd (save_tasks (DATA_FILE (world s)) l (world s))"
    using assms(1) by (simp add: persist_def case_prod_beta)
  then show ?thesis
    using save_tasks_failed [OF assms(2)] by simp
qed

lemma strip_ex_x: "strip (str '' x '') = str ''x''"
  by (simp add: strip_def str_def isspace_def)

lemma strip_ex_y: "strip (str ''y'') = str ''y''"
  by (simp add: strip_def str_def isspace_def)

lemma ex_edited_task:
  "edited_task ex_store12 (ex_task 1 ''one'') (str '' x '') (str ''y'') True = ex_task1_edited"
  by (simp add: edited_task_def strip_ex_x strip_ex_y ex_task_def ex_task1_edited_def
      ex_store12_def ex_world_def)
    (simp add: str_def)

lemma ex_edited_task_ro:
  "edited_task ex_store12_ro (ex_task 1 ''one'') (str '' x '') (str ''y'') True = ex_task1_edited"
  by (simp add: edited_task_def strip_ex_x strip_ex_y ex_task_def ex_task1_edited_def
      ex_store12_ro_def ex_world_def)
    (simp add: str_def)

lemma ex_task1_edited_encodable: "encodable ip (JObj ex_task1_edited)"
  by (simp add: encodable_def ex_task1_edited_def int_str_small)

section \<open>Editing a task\<close>

text \<open>
  Claim C4.  \<open>edit_task\<close> on an id that is absent returns \<open>False\<close> and leaves the whole
  state as it was: the store, the data file and standard output.  A state of the program
  (one that satisfies the invariant, as every state of a session does) holds no empty
  record, so there an id that is present has a record \<open>t\<close> that is not empty.  On such an
  id \<open>edit_task\<close> returns \<open>True\<close>.  The record \<open>t1\<close> that takes the place of \<open>t\<close> has
  \<open>title\<close>, \<open>description\<close> and \<open>done\<close> overwritten (the two texts stripped of
  surrounding whitespace) and \<open>updated_at\<close> set to the clock's reading, and keeps its
  other fields; the task keeps its place in the store and no other task changes.  The
  resulting store \<open>s1\<close> is persisted: when the data file can be written and the store's
  records \<open>l\<close>, in ascending order of id, can be encoded, the data file holds exactly
  those records afterwards and nothing else of the world changes; otherwise one message
  about the failed write is printed and the data file is as it was or cut.
\<close>

theorem edit_task_contract:
  "(map_of (tasks s) task_id = None \<longrightarrow>
      edit_task task_id title description done s = (Inr False, s)) \<and>
   (tasks_inv (interp (world s)) (tasks s) \<longrightarrow> map_of (tasks s) task_id \<noteq> Some []) \<and>
   (\<forall>t. map_of (tasks s) task_id = Some t \<and> t \<noteq> [] \<longrightarrow>
      (\<exists>t1 s1 l.
         t1 = AList.update (str ''updated_at'')
                (JStr (isoformat (clock (world s) (ticks (world s)))))
                (AList.update (str ''done'') (JBool done)
                  (AList.update (str ''description'') (JStr (strip description))
                    (AList.update (str ''title'') (JStr (strip title)) t))) \<and>
         map_of t1 = (map_of t)
           (str ''title'' \<mapsto> JStr (strip title),
            str ''description'' \<mapsto> JStr (strip description),
            str ''done'' \<mapsto> JBool done,
            str ''updated_at'' \<mapsto> JStr (isoformat (clock (world s) (ticks (world s))))) \<and>
         s1 = s\<lparr>tasks := AList.update task_id t1 (tasks s),
                 world := (world s)\<lparr>ticks := Suc (ticks (world s))\<rparr>\<rparr> \<and>
         map fst (tasks s1) = map fst (tasks s) \<and>
         map_of (tasks s1) = (map_of (tasks s))(task_id \<mapsto> t1) \<and>
         as_list (tasks s1) = Inr l \<and>
         l = map (\<lambda>k. the (map_of (tasks s1) k)) (sort (map fst (tasks s))) \<and>
         edit_task task_id title description done s = (Inr True, snd (persist s1)) \<and>
         tasks (snd (persist s1)) = tasks s1 \<and>
         next_id (snd (persist s1)) = next_id s \<and>
         (can_write (world s1) (DATA_FILE (world s1)) \<and>
          encodable (interp (world s1)) (JArr (map JObj l)) \<longrightarrow>
            world (snd (persist s1)) =
              (world s1)\<lparr>files := (files (world s1))
                (DATA_FILE (world s1) := File (JsonDoc (JArr (map JObj l))))\<rparr>) \<and>
         (\<not> (can_write (world s1) (DATA_FILE (world s1)) \<and>
             encodable (interp (world s1)) (JArr (map JObj l))) \<longrightarrow>
            (\<exists>e. stdout (world (snd (persist s1))) =
                 stdout (world s1) @ [msg_write_error (world s1) (DATA_FILE (world s1)) e] \<and>
               (files (world (snd (persist s1))) = files (world s1) \<or>
                files (world (snd (persist s1))) =
                  (files (world s1))(DATA_FILE (world s1) := File Truncated))))))"
proof (intro conjI impI allI)
  assume "map_of (tasks s) task_id = None"
  then show "edit_task task_id title description done s = (Inr False, s)"
    by (rule edit_task_absent)
next
  assume "tasks_inv (interp (world s)) (tasks s)"
  then show "map_of (tasks s) task_id \<noteq> Some []"
    using inv_nonempty [of "interp (world s)" "tasks s" task_id "[]"] by blast
next
  fix t
  assume a: "map_of (tasks s) task_id = Some t \<and> t \<noteq> []"
  then have t: "map_of (tasks s) task_id = Some t" and ne: "t \<noteq> []"
    by simp_all
  define t1 where "t1 = edited_task s t title description done"
  define s1 where "s1 = edited s task_id t title description done"
  define l where "l = map (\<lambda>k. the (map_of (tasks s1) k)) (sort (map fst (tasks s)))"
  have k: "task_id \<in> set (map fst (tasks s))"
    using t by (force dest: map_of_SomeD)
  have keys: "map fst (tasks s1) = map fst (tasks s)"
    using k by (simp add: s1_def edited_def update_keys)
  have al: "as_list (tasks s1) = Inr l"
    by (simp add: as_list_eq l_def keys)
  have c1: "t1 = AList.update (str ''updated_at'')
                (JStr (isoformat (clock (world s) (ticks (world s)))))
                (AList.update (str ''done'') (JBool done)
                  (AList.update (str ''description'') (JStr (strip description))
                    (AList.update (str ''title'') (JStr (strip title)) t)))"
    by (simp add: t1_def edited_task_def)
  have c2: "map_of t1 = (map_of t)
      (str ''title'' \<mapsto> JStr (strip title),
       str ''description'' \<mapsto> JStr (strip description),
       str ''done'' \<mapsto> JBool done,
       str ''updated_at'' \<mapsto> JStr (isoformat (clock (world s) (ticks (world s)))))"
    by (simp add: t1_def edited_task_def update_conv')
  have c3: "s1 = s\<lparr>tasks := AList.update task_id t1 (tasks s),
                 world := (world s)\<lparr>ticks := Suc (ticks (world s))\<rparr>\<rparr>"
    by (simp add: s1_def t1_def edited_def)
  have c5: "map_of (tasks s1) = (map_of (tasks s))(task_id \<mapsto> t1)"
    by (simp add: s1_def t1_def edited_def update_conv')
  have c8: "edit_task task_id title description done s = (Inr True, snd (persist s1))"
    unfolding s1_def using t ne by (rule edit_task_present)
  have c9: "tasks (snd (persist s1)) = tasks s1" "next_id (snd (persist s1)) = next_id s"
    by (simp_all add: s1_def edited_def)
  have c10: "can_write (world s1) (DATA_FILE (world s1)) \<and>
          encodable (interp (world s1)) (JArr (map JObj l)) \<longrightarrow>
            world (snd (persist s1)) =
              (world s1)\<lparr>files := (files (world s1))
                (DATA_FILE (world s1) := File (JsonDoc (JArr (map JObj l))))\<rparr>"
    using persist_written [OF _ al] by blast
  have c11: "\<not> (can_write (world s1) (DATA_FILE (world s1)) \<and>
             encodable (interp (world s1)) (JArr (map JObj l))) \<longrightarrow>
            (\<exists>e. stdout (world (snd (persist s1))) =
                 stdout (world s1) @ [msg_write_error (world s1) (DATA_FILE (world s1)) e] \<and>
               (files (world (snd (persist s1))) = files (world s1) \<or>
                files (world (snd (persist s1))) =
                  (files (world s1))(DATA_FILE (world s1) := File Truncated)))"
    using persist_failed [OF al] by blast
  show "\<exists>t1 s1 l.
         t1 = AList.update (str ''updated_at'')
                (JStr (isoformat (clock (world s) (ticks (world s)))))
                (AList.update (str ''done'') (JBool done)
                  (AList.update (str ''description'') (JStr (strip description))
                    (AList.update (str ''title'') (JStr (strip title)) t))) \<and>
         map_of t1 = (map_of t)
           (str ''title'' \<mapsto> JStr (strip title),
            str ''description'' \<mapsto> JStr (strip description),
            str ''done'' \<mapsto> JBool done,
            str ''updated_at'' \<mapsto> JStr (isoformat (clock (world s) (ticks (world s))))) \<and>
         s1 = s\<lparr>tasks := AList.update task_id t1 (tasks s),
                 world := (world s)\<lparr>ticks := Suc (ticks (world s))\<rparr>\<rparr> \<and>
         map fst (tasks s1) = map fst (tasks s) \<and>
         map_of (tasks s1) = (map_of (tasks s))(task_id \<mapsto> t1) \<and>
         as_list (tasks s1) = Inr l \<and>
         l = map (\<lambda>k. the (map_of (tasks s1) k)) (sort (map fst (tasks s))) \<and>
         edit_task task_id title description done s = (Inr True, snd (persist s1)) \<and>
         tasks (snd (persist s1)) = tasks s1 \<and>
         next_id (snd (persist s1)) = next_id s \<and>
         (can_write (world s1) (DATA_FILE (world s1)) \<and>
          encodable (interp (world s1)) (JArr (map JObj l)) \<longrightarrow>
            world (snd (persist s1)) =
              (world s1)\<lparr>files := (files (world s1))
                (DATA_FILE (world s1) := File (JsonDoc (JArr (map JObj l))))\<rparr>) \<and>
         (\<not> (can_write (world s1) (DATA_FILE (world s1)) \<and>
             encodable (interp (world s1)) (JArr (map JObj l))) \<longrightarrow>
            (\<exists>e. stdout (world (snd (persist s1))) =
                 stdout (world s1) @ [msg_write_error (world s1) (DATA_FILE (world s1)) e] \<and>
               (files (world (snd (persist s1))) = files (world s1) \<or>
                files (world (snd (persist s1))) =
                  (files (world s1))(DATA_FILE (world s1) := File Truncated))))"
    apply (rule exI [of _ t1])
    apply (rule exI [of _ s1])
    apply (rule exI [of _ l])
    apply (intro conjI)
    apply (rule c1)
    apply (rule c2)
    apply (rule c3)
    apply (rule keys)
    apply (rule c5)
    apply (rule al)
    apply (rule l_def)
    apply (rule c8)
    apply (rule c9(1))
    apply (rule c9(2))
    apply (rule c10)
    apply (rule c11)
    done
qed

theorem edit_task_contract_witness:
  "edit_task 999 (str ''x'') (str ''y'') True ex_store12 = (Inr False, ex_store12) \<and>
   tasks_inv (interp (world ex_store12)) (tasks ex_store12) \<and>
   map_of (tasks ex_store12) 1 = Some (ex_task 1 ''one'') \<and>
   fst (edit_task 1 (str '' x '') (str ''y'') True ex_store12) = Inr True \<and>
   tasks (snd (edit_task 1 (str '' x '') (str ''y'') True ex_store12)) =
     [(1, ex_task1_edited), (2, ex_task 2 ''two'')] \<and>
   files (world (snd (edit_task 1 (str '' x '') (str ''y'') True ex_store12))) ex_data =
     File (JsonDoc (JArr [JObj ex_task1_edited, JObj (ex_task 2 ''two'')])) \<and>
   stdout (world (snd (edit_task 1 (str '' x '') (str ''y'') True ex_store12))) = [] \<and>
   fst (edit_task 1 (str '' x '') (str ''y'') True ex_store12_ro) = Inr True \<and>
   (\<exists>e. stdout (world (snd (edit_task 1 (str '' x '') (str ''y'') True ex_store12_ro))) =
      [msg_write_error (world ex_store12_ro) ex_data e])"
proof -
  have absent: "map_of (tasks ex_store12) 999 = None"
    by (simp add: ex_store12_def)
  have present: "map_of (tasks ex_store12) 1 = Some (ex_task 1 ''one'') \<and> ex_task 1 ''one'' \<noteq> []"
    by (simp add: ex_store12_def ex_task_def)
  have present_ro:
    "map_of (tasks ex_store12_ro) 1 = Some (ex_task 1 ''one'') \<and> ex_task 1 ''one'' \<noteq> []"
    by (simp add: ex_store12_ro_def ex_task_def)
  have c1: "edit_task 999 (str ''x'') (str ''y'') True ex_store12 = (Inr False, ex_store12)"
    using edit_task_contract [of ex_store12 999 "str ''x''" "str ''y''" True] absent by blast
  obtain t1 s1 l where
    t1: "t1 = AList.update (str ''updated_at'')
                (JStr (isoformat (clock (world ex_store12) (ticks (world ex_store12)))))
                (AList.update (str ''done'') (JBool True)
                  (AList.update (str ''description'') (JStr (strip (str ''y'')))
                    (AList.update (str ''title'') (JStr (strip (str '' x ''))) (ex_task 1 ''one''))))"
    and s1: "s1 = ex_store12\<lparr>tasks := AList.update 1 t1 (tasks ex_store12),
                 world := (world ex_store12)\<lparr>ticks := Suc (ticks (world ex_store12))\<rparr>\<rparr>"
    and l: "l = map (\<lambda>k. the (map_of (tasks s1) k)) (sort (map fst (tasks ex_store12)))"
    and e: "edit_task 1 (str '' x '') (str ''y'') True ex_store12 = (Inr True, snd (persist s1))"
    and ts: "tasks (snd (persist s1)) = tasks s1"
    and ok: "can_write (world s1) (DATA_FILE (world s1)) \<and>
          encodable (interp (world s1)) (JArr (map JObj l)) \<longrightarrow>
            world (snd (persist s1)) =
              (world s1)\<lparr>files := (files (world s1))
                (DATA_FILE (world s1) := File (JsonDoc (JArr (map JObj l))))\<rparr>"
    using edit_task_contract [of ex_store12 1 "str '' x ''" "str ''y''" True] present by blast
  have t1': "t1 = ex_task1_edited"
    unfolding t1 using ex_edited_task by (simp add: edited_task_def)
  have ts1: "tasks s1 = [(1, ex_task1_edited), (2, ex_task 2 ''two'')]"
    by (simp add: s1 t1' ex_store12_def)
  have w1: "world s1 = (ex_world no_files no_fault)\<lparr>ticks := Suc 0\<rparr>"
    by (simp add: s1 ex_store12_def) (simp add: ex_world_def)
  have l': "l = [ex_task1_edited, ex_task 2 ''two'']"
    by (simp add: l ts1 ex_store12_def)
  have df: "DATA_FILE (world s1) = ex_data"
    using DATA_FILE_ex [of no_files no_fault] by (simp add: w1 DATA_FILE_def ex_world_def)
  have cw: "can_write (world s1) (DATA_FILE (world s1))"
    unfolding df by (simp add: w1 can_write_def ex_world_def no_fault_def no_files_def)
  have enc: "encodable (interp (world s1)) (JArr (map JObj l))"
    by (simp add: l' encodable_JArr ex_task1_edited_encodable ex_task_encodable)
  have w2: "world (snd (persist s1)) =
      (world s1)\<lparr>files := (files (world s1))
        (ex_data := File (JsonDoc (JArr [JObj ex_task1_edited, JObj (ex_task 2 ''two'')])))\<rparr>"
    using ok cw enc by (simp add: df l')
  have c2: "fst (edit_task 1 (str '' x '') (str ''y'') True ex_store12) = Inr True"
    by (simp add: e)
  have c3: "tasks (snd (edit_task 1 (str '' x '') (str ''y'') True ex_store12)) =
      [(1, ex_task1_edited), (2, ex_task 2 ''two'')]"
    by (simp add: e ts ts1)
  have c4: "files (world (snd (edit_task 1 (str '' x '') (str ''y'') True ex_store12))) ex_data =
      File (JsonDoc (JArr [JObj ex_task1_edited, JObj (ex_task 2 ''two'')]))"
    by (simp add: e w2)
  have c5: "stdout (world (snd (edit_task 1 (str '' x '') (str ''y'') True ex_store12))) = []"
    by (simp add: e w2 w1) (simp add: ex_world_def)
  obtain t2 s2 l2 where
    s2: "s2 = ex_store12_ro\<lparr>tasks := AList.update 1 t2 (tasks ex_store12_ro),
                 world := (world ex_store12_ro)\<lparr>ticks := Suc (ticks (world ex_store12_ro))\<rparr>\<rparr>"
    and e2: "edit_task 1 (str '' x '') (str ''y'') True ex_store12_ro =
        (Inr True, snd (persist s2))"
    and fail: "\<not> (can_write (world s2) (DATA_FILE (world s2)) \<and>
             encodable (interp (world s2)) (JArr (map JObj l2))) \<longrightarrow>
            (\<exists>e. stdout (world (snd (persist s2))) =
                 stdout (world s2) @ [msg_write_error (world s2) (DATA_FILE (world s2)) e] \<and>
               (files (world (snd (persist s2))) = files (world s2) \<or>
                files (world (snd (persist s2))) =
                  (files (world s2))(DATA_FILE (world s2) := File Truncated)))"
    using edit_task_contract [of ex_store12_ro 1 "str '' x ''" "str ''y''" True] present_ro
    by blast
  have w3: "world s2 = (ex_world no_files no_write)\<lparr>ticks := Suc 0\<rparr>"
    by (simp add: s2 ex_store12_ro_def) (simp add: ex_world_def)
  have df2: "DATA_FILE (world s2) = ex_data"
    using DATA_FILE_ex [of no_files no_write] by (simp add: w3 DATA_FILE_def ex_world_def)
  have ncw: "\<not> can_write (world s2) (DATA_FILE (world s2))"
    unfolding df2 by (simp add: w3 can_write_def ex_world_def no_write_def)
  have m: "msg_write_error (world s2) ex_data x = msg_write_error (world ex_store12_ro) ex_data x"
    for x
    by (simp add: w3 msg_write_error_def ex_store12_ro_def ex_world_def)
  have "\<exists>x. stdout (world (snd (persist s2))) =
      stdout (world s2) @ [msg_write_error (world s2) ex_data x]"
    using fail ncw unfolding df2 by blast
  then have c7: "\<exists>x. stdout (world (snd (edit_task 1 (str '' x '') (str ''y'') True
      ex_store12_ro))) = [msg_write_error (world ex_store12_ro) ex_data x]"
    unfolding m by (simp add: e2 w3) (simp add: ex_world_def)
  have c6: "fst (edit_task 1 (str '' x '') (str ''y'') True ex_store12_ro) = Inr True"
    by (simp add: e2)
  show ?thesis
    using c1 c2 c3 c4 c5 c6 c7 ex_inv12 [of "interp (world ex_store12)"] present by simp
qed

section \<open>Assignment of ids\<close>

text \<open>
  Claim C1.  After \<open>load_state\<close> the counter \<open>next_id\<close> is one more than the largest id in
  the store, or 1 when the store is empty.  In every state reached from there by calls of
  \<open>add_task\<close>, \<open>edit_task\<close> and \<open>delete_task\<close> the ids in the store are distinct, and
  each of them is below the counter of every later state of the session; \<open>add_task\<close>
  gives the new task the counter's value as its id, so an id that the store has held is
  not assigned again.  When the loaded store holds exactly the ids 1 and 2, the task added
  after \<open>delete_task 1\<close> gets id 3.
\<close>

theorem ids_never_reused:
  "next_id (snd (load_state s)) =
     (if tasks (snd (load_state s)) = [] then 1
      else Max (set (map fst (tasks (snd (load_state s))))) + 1) \<and>
   distinct (map fst (tasks (run cs (snd (load_state s))))) \<and>
   (\<forall>k \<in> set (map fst (tasks (run cs (snd (load_state s))))).
      k < next_id (run cs' (run cs (snd (load_state s))))) \<and>
   (\<exists>task s'. add_task title description done (run cs (snd (load_state s))) = (Inr task, s') \<and>
      map_of task (str ''id'') = Some (JInt (next_id (run cs (snd (load_state s))))) \<and>
      map_of (tasks s') (next_id (run cs (snd (load_state s)))) = Some task \<and>
      next_id s' = next_id (run cs (snd (load_state s))) + 1) \<and>
   (set (map fst (tasks (snd (load_state s)))) = {1, 2} \<longrightarrow>
      (\<exists>task s'. add_task title description done (snd (delete_task 1 (snd (load_state s)))) =
           (Inr task, s') \<and>
         map_of task (str ''id'') = Some (JInt 3)))"
proof (intro conjI impI ballI)
  let ?s0 = "snd (load_state s)"
  let ?s1 = "run cs ?s0"
  have inv0: "store_inv ?s0" by (rule store_inv_load_state)
  then have inv1: "store_inv ?s1" by (rule store_inv_run)
  show "next_id ?s0 = (if tasks ?s0 = [] then 1 else Max (set (map fst (tasks ?s0))) + 1)"
    by (rule next_id_load_state)
  show "distinct (map fst (tasks ?s1))"
    using inv1 by (simp add: store_inv_def tasks_inv_def)
  show "k < next_id (run cs' ?s1)" if "k \<in> set (map fst (tasks ?s1))" for k
  proof -
    have "k < next_id ?s1" using inv1 that by (rule keys_bound)
    also have "\<dots> \<le> next_id (run cs' ?s1)" using inv1 by (rule next_id_run)
    finally show ?thesis .
  qed
  show "\<exists>task s'. add_task title description done ?s1 = (Inr task, s') \<and>
      map_of task (str ''id'') = Some (JInt (next_id ?s1)) \<and>
      map_of (tasks s') (next_id ?s1) = Some task \<and> next_id s' = next_id ?s1 + 1"
    by (simp add: add_task_eq new_task_def added_def update_conv')
  show "\<exists>task s'. add_task title description done (snd (delete_task 1 ?s0)) = (Inr task, s') \<and>
         map_of task (str ''id'') = Some (JInt 3)"
    if ks: "set (map fst (tasks ?s0)) = {1, 2}"
  proof -
    from ks have ne: "tasks ?s0 \<noteq> []" by auto
    have "next_id ?s0 = Max (set (map fst (tasks ?s0))) + 1"
      using ne next_id_load_state [of s] by simp
    also have "\<dots> = Max {1, 2} + 1" by (simp only: ks)
    finally have n: "next_id ?s0 = 3" by simp
    have "1 \<in> set (map fst (tasks ?s0))" using ks by simp
    then have "next_id (snd (delete_task 1 ?s0)) = 3"
      by (simp add: delete_task_present n)
    then show ?thesis
      by (simp add: add_task_eq new_task_def)
  qed
qed

theorem ids_never_reused_witness:
  "set (map fst (tasks (snd (load_state ex_start12)))) = {1, 2} \<and>
   tasks (run [Delete 1] (snd (load_state ex_start12))) = [(2, ex_task 2 ''two'')] \<and>
   2 < next_id (run [Add (str ''three'') (str ''new'') False]
                     (run [Delete 1] (snd (load_state ex_start12)))) \<and>
   (\<exists>task s'. add_task (str ''three'') (str ''new'') False
        (snd (delete_task 1 (snd (load_state ex_start12)))) = (Inr task, s') \<and>
      map_of task (str ''id'') = Some (JInt 3))"
  using ids_never_reused [of ex_start12 "[Delete 1]" "[Add (str ''three'') (str ''new'') False]"
      "str ''three''" "str ''new''" False]
  by (simp add: ex_load12 ex_after_delete)

subsection \<open>Ids written as strings\<close>

lemma int_of_str_2: "int_of_str ip (str ''2'') = Inr 2"
  by (simp add: int_of_str_def str_def int_space_def isspace_def decimal_value_def
      digit_values_def List.map_filter_simps digits_value_def too_many_digits_def)

lemma coerce_id_str_2: "coerce_id ip (JObj ((str ''id'', JStr (str ''2'')) # r)) = Inr 2"
  by (simp add: coerce_id_def subscript_def py_int_def int_of_str_2)

lemma unicode_14_decimal_1634: "unicode_14_decimal 1634 = Some 2"
  by (simp add: unicode_14_decimal_def unicode_14_zeros_def)

lemma int_of_str_arabic_2: "int_of_str ex_interp [1634] = Inr 2"
  by (simp add: int_of_str_def int_space_def isspace_def decimal_value_def ex_interp_def
      unicode_14_decimal_1634 digit_values_def List.map_filter_simps digits_value_def
      too_many_digits_def)

lemma coerce_id_arabic: "coerce_id ex_interp (JObj ex_rec_arabic) = Inr 2"
  by (simp add: ex_rec_arabic_def coerce_id_def subscript_def py_int_def int_of_str_arabic_2)

section \<open>Records with the same id in the data file\<close>

text \<open>
  Claim C9.  Let the data file hold an array in which two records coerce to the same id
  \<open>k\<close>, as the number \<open>2\<close> and the string \<open>"2"\<close> do on every interpreter, and no record
  after the second coerces to \<open>k\<close>.  Then \<open>load_state\<close> returns normally, the store holds
  the later record under \<open>k\<close>, the store has fewer tasks than the file has records, and
  the world is unchanged: nothing is printed.
\<close>

theorem load_state_duplicate_ids:
  assumes "can_read (world s) (DATA_FILE (world s))"
    and "files (world s) (DATA_FILE (world s)) = File (JsonDoc (JArr raw))"
    and "raw = xs @ JObj d1 # ys @ JObj d2 # zs"
    and "coerce_id (interp (world s)) (JObj d1) = Inr k"
    and "coerce_id (interp (world s)) (JObj d2) = Inr k"
    and "\<forall>t \<in> set zs. coerce_id (interp (world s)) t \<noteq> Inr k"
  shows "fst (load_state s) = Inr () \<and>
         map_of (tasks (snd (load_state s))) k = Some d2 \<and>
         length (tasks (snd (load_state s))) < length raw \<and>
         world (snd (load_state s)) = world s \<and>
         coerce_id ip (JObj ((str ''id'', JInt 2) # r1)) = Inr 2 \<and>
         coerce_id ip (JObj ((str ''id'', JStr (str ''2'')) # r2)) = Inr 2"
proof -
  have lt: "load_tasks (DATA_FILE (world s)) (world s) = (Inr raw, world s)"
    using assms(1,2) by (rule load_tasks_array)
  have "map_of (fold (load_step (interp (world s))) raw []) k = Some d2"
    and "length (fold (load_step (interp (world s))) raw []) < length raw"
    unfolding assms(3) using assms(4,5,6) by (rule fold_load_step_dup)+
  then show ?thesis
    by (simp add: load_state_def lt coerce_id_JInt coerce_id_str_2)
qed

theorem load_state_duplicate_ids_witness:
  "coerce_id (interp (world ex_start_dup)) (JObj ex_rec_num) = Inr 2 \<and>
   coerce_id (interp (world ex_start_dup)) (JObj ex_rec_str) = Inr 2 \<and>
   map_of (tasks (snd (load_state ex_start_dup))) 2 = Some ex_rec_str \<and>
   length (tasks (snd (load_state ex_start_dup))) < length [JObj ex_rec_num, JObj ex_rec_str] \<and>
   stdout (world (snd (load_state ex_start_dup))) = [] \<and>
   coerce_id (interp (world ex_start_three)) (JObj ex_rec_arabic) = Inr 2 \<and>
   map_of (tasks (snd (load_state ex_start_three))) 2 = Some ex_rec_arabic \<and>
   length (tasks (snd (load_state ex_start_three))) <
     length [JObj ex_rec_num, JObj ex_rec_str, JObj ex_rec_arabic]"
proof -
  have n: "coerce_id ip (JObj ex_rec_num) = Inr 2" for ip
    by (simp add: ex_rec_num_def coerce_id_JInt)
  have t: "coerce_id ip (JObj ex_rec_str) = Inr 2" for ip
    by (simp add: ex_rec_str_def coerce_id_str_2)
  have a: "coerce_id (interp (world ex_start_three)) (JObj ex_rec_arabic) = Inr 2"
    by (simp add: ex_start_three_def coerce_id_arabic)
  have "can_read (world ex_start_dup) (DATA_FILE (world ex_start_dup))"
    by (simp add: ex_start_dup_def can_read_def) (simp add: ex_world_def no_fault_def)
  moreover have "files (world ex_start_dup) (DATA_FILE (world ex_start_dup)) =
      File (JsonDoc (JArr [JObj ex_rec_num, JObj ex_rec_str]))"
    by (simp add: ex_start_dup_def) (simp add: ex_world_def only_data_def)
  moreover have "[JObj ex_rec_num, JObj ex_rec_str] = [] @ JObj ex_rec_num # [] @ JObj ex_rec_str # []"
    by simp
  moreover have "\<forall>t \<in> set []. coerce_id (interp (world ex_start_dup)) t \<noteq> Inr (2::int)"
    by simp
  ultimately have d: "fst (load_state ex_start_dup) = Inr () \<and>
         map_of (tasks (snd (load_state ex_start_dup))) 2 = Some ex_rec_str \<and>
         length (tasks (snd (load_state ex_start_dup))) < length [JObj ex_rec_num, JObj ex_rec_str] \<and>
         world (snd (load_state ex_start_dup)) = world ex_start_dup \<and>
         coerce_id ex_interp (JObj ((str ''id'', JInt 2) # [])) = Inr 2 \<and>
         coerce_id ex_interp (JObj ((str ''id'', JStr (str ''2'')) # [])) = Inr 2"
    using n t by (intro load_state_duplicate_ids)
  have "can_read (world ex_start_three) (DATA_FILE (world ex_start_three))"
    by (simp add: ex_start_three_def can_read_def) (simp add: ex_world_def no_fault_def)
  moreover have "files (world ex_start_three) (DATA_FILE (world ex_start_three)) =
      File (JsonDoc (JArr [JObj ex_rec_num, JObj ex_rec_str, JObj ex_rec_arabic]))"
    by (simp add: ex_start_three_def) (simp add: ex_world_def only_data_def)
  moreover have "[JObj ex_rec_num, JObj ex_rec_str, JObj ex_rec_arabic] =
      [JObj ex_rec_num] @ JObj ex_rec_str # [] @ JObj ex_rec_arabic # []"
    by simp
  moreover have "\<forall>t \<in> set []. coerce_id (interp (world ex_start_three)) t \<noteq> Inr (2::int)"
    by simp
  ultimately have th: "fst (load_state ex_start_three) = Inr () \<and>
         map_of (tasks (snd (load_state ex_start_three))) 2 = Some ex_rec_arabic \<and>
         length (tasks (snd (load_state ex_start_three))) <
           length [JObj ex_rec_num, JObj ex_rec_str, JObj ex_rec_arabic] \<and>
         world (snd (load_state ex_start_three)) = world ex_start_three \<and>
         coerce_id ex_interp (JObj ((str ''id'', JInt 2) # [])) = Inr 2 \<and>
         coerce_id ex_interp (JObj ((str ''id'', JStr (str ''2'')) # [])) = Inr 2"
    using t a by (intro load_state_duplicate_ids)
  have "stdout (world ex_start_dup) = []"
    by (simp add: ex_start_dup_def) (simp add: ex_world_def)
  with d th n t a show ?thesis
    by simp
qed

section \<open>Adding a task with a blank title\<close>

text \<open>
  Claim C10.  For every title made of whitespace only, \<open>add_task\<close> returns a task whose
  title is the empty string and stores it under the id it assigned; nothing in it rejects
  the title.  When the data file can be written, that task is in the array the data file
  holds afterwards.
\<close>

theorem add_task_blank_title:
  assumes "list_all isspace title"
  shows "\<exists>task s'. add_task title description done s = (Inr task, s') \<and>
           map_of task (str ''title'') = Some (JStr []) \<and>
           map_of (tasks s') (next_id s) = Some task \<and>
           (tasks_inv (interp (world s)) (tasks s) \<and> can_write (world s) (DATA_FILE (world s)) \<and>
            list_all (\<lambda>(k, t). encodable (interp (world s)) (JObj t)) (tasks s') \<longrightarrow>
              (\<exists>l. files (world s') (DATA_FILE (world s)) = File (JsonDoc (JArr l)) \<and>
                 JObj task \<in> set l))"
proof -
  let ?task = "new_task s title description done"
  let ?s1 = "added s title description done"
  let ?s' = "snd (persist ?s1)"
  have e: "add_task title description done s = (Inr ?task, ?s')"
    by (rule add_task_eq)
  have t: "map_of ?task (str ''title'') = Some (JStr [])"
    using assms by (simp add: new_task_def strip_whitespace)
  have m: "map_of (tasks ?s') (next_id s) = Some ?task"
    by (simp add: added_def update_conv')
  have "\<exists>l. files (world ?s') (DATA_FILE (world s)) = File (JsonDoc (JArr l)) \<and> JObj ?task \<in> set l"
    if inv: "tasks_inv (interp (world s)) (tasks s)"
      and wr: "can_write (world s) (DATA_FILE (world s))"
      and enc: "list_all (\<lambda>(k, t). encodable (interp (world s)) (JObj t)) (tasks ?s')"
  proof -
    have df: "DATA_FILE (world ?s1) = DATA_FILE (world s)"
      by (simp add: added_def DATA_FILE_def)
    have ip: "interp (world ?s1) = interp (world s)"
      by (simp add: added_def)
    have wr1: "can_write (world ?s1) (DATA_FILE (world ?s1))"
      using wr by (simp add: df) (simp add: added_def can_write_def)
    have enc1: "list_all (\<lambda>(k, t). encodable (interp (world ?s1)) (JObj t)) (tasks ?s1)"
      using enc by (simp add: ip)
    define l where "l = map (\<lambda>k. the (map_of (tasks ?s1) k)) (sort (map fst (tasks ?s1)))"
    have p: "persist ?s1 = (Inr (), ?s1\<lparr>world := (world ?s1)\<lparr>files := (files (world ?s1))
        (DATA_FILE (world ?s1) := File (JsonDoc (JArr (map JObj l))))\<rparr>\<rparr>)"
      unfolding l_def using wr1 enc1 by (rule persist_ok)
    have d: "distinct (map fst (tasks ?s1))"
      using inv by (simp add: added_def tasks_inv_def distinct_update)
    have "(next_id s, ?task) \<in> set (tasks ?s1)"
      using m by (simp add: map_of_SomeD)
    then have "?task \<in> snd ` set (tasks ?s1)"
      by force
    then have "?task \<in> set l"
      using sorted_values_set [OF d] by (simp add: l_def)
    then have "JObj ?task \<in> set (map JObj l)" by simp
    moreover have "files (world ?s') (DATA_FILE (world s)) = File (JsonDoc (JArr (map JObj l)))"
      by (simp add: p df)
    ultimately show ?thesis by blast
  qed
  with e t m show ?thesis by blast
qed

theorem add_task_blank_title_witness:
  "list_all isspace [32, 9, 160] \<and>
   (\<exists>task s'. add_task [32, 9, 160] (str ''note'') False ex_fresh = (Inr task, s') \<and>
      map_of task (str ''title'') = Some (JStr []) \<and>
      map_of (tasks s') 1 = Some task \<and>
      (\<exists>l. files (world s') ex_data = File (JsonDoc (JArr l)) \<and> JObj task \<in> set l))"
proof -
  have sp: "list_all isspace [32, 9, 160]"
    by (simp add: isspace_def)
  from add_task_blank_title [OF sp, of "str ''note''" False ex_fresh]
  obtain task s' where a: "add_task [32, 9, 160] (str ''note'') False ex_fresh = (Inr task, s')"
    and t: "map_of task (str ''title'') = Some (JStr [])"
    and m: "map_of (tasks s') (next_id ex_fresh) = Some task"
    and imp: "tasks_inv (interp (world ex_fresh)) (tasks ex_fresh) \<and>
        can_write (world ex_fresh) (DATA_FILE (world ex_fresh)) \<and>
        list_all (\<lambda>(k, t). encodable (interp (world ex_fresh)) (JObj t)) (tasks s') \<longrightarrow>
          (\<exists>l. files (world s') (DATA_FILE (world ex_fresh)) = File (JsonDoc (JArr l)) \<and>
             JObj task \<in> set l)"
    by blast
  from a have "tasks s' = [(1, new_task ex_fresh [32, 9, 160] (str ''note'') False)]"
    by (auto simp: add_task_eq added_def)
  then have enc: "list_all (\<lambda>(k, t). encodable (interp (world ex_fresh)) (JObj t)) (tasks s')"
    by (simp add: new_task_def encodable_def int_str_small surrogate_free_def str_def
        ex_world_def strip_def isspace_def)
  have "can_write (world ex_fresh) (DATA_FILE (world ex_fresh))"
    by (simp add: can_write_def ex_world_def no_fault_def no_files_def)
  with enc imp have "\<exists>l. files (world s') ex_data = File (JsonDoc (JArr l)) \<and> JObj task \<in> set l"
    by simp
  with sp a t m show ?thesis by auto
qed

subsection \<open>Every record with a coercible id is stored\<close>

lemma fold_load_step_stored:
  assumes "JObj d \<in> set raw" and "coerce_id ip (JObj d) = Inr k"
  shows "k \<in> fst ` set (fold (load_step ip) raw ts)"
proof -
  obtain xs zs where raw: "raw = xs @ JObj d # zs"
    using assms(1) by (auto dest: split_list)
  have "k \<in> fst ` set (AList.update k d (fold (load_step ip) xs ts))"
    by (simp add: dom_update)
  then show ?thesis
    using fold_load_step_keys [of "AList.update k d (fold (load_step ip) xs ts)" ip zs]
    by (auto simp: raw load_step_hit [OF assms(2)])
qed

section \<open>The fields of persisted tasks\<close>

text \<open>
  Claim C5 says that every task \<open>persist\<close> writes has all six fields, also when it came
  from the data file.  A data file whose only record is \<open>{"id": 1}\<close> is loaded as it is,
  and \<open>persist\<close> writes that record back, without complaint, with one field.
\<close>

theorem persist_writes_bare_record:
  "fst (load_state ex_start_bare) = Inr () \<and>
   tasks (snd (load_state ex_start_bare)) = [(1, [(str ''id'', JInt 1)])] \<and>
   files (world (snd (persist (snd (load_state ex_start_bare))))) ex_data =
     File (JsonDoc (JArr [JObj [(str ''id'', JInt 1)]])) \<and>
   stdout (world (snd (persist (snd (load_state ex_start_bare))))) = [] \<and>
   \<not> has_six_fields [(str ''id'', JInt 1)]"
proof -
  define w where "w = ex_world (only_data (JsonDoc (JArr [JObj [(str ''id'', JInt 1)]]))) no_fault"
  define s where "s = \<lparr>tasks = [(1, [(str ''id'', JInt 1)])], next_id = 2, world = w\<rparr>"
  have l: "load_state ex_start_bare = (Inr (), s)"
    by (simp add: ex_load_bare s_def w_def)
  have df: "DATA_FILE w = ex_data"
    by (simp add: w_def)
  have "can_write (world s) (DATA_FILE (world s))"
    by (simp add: can_write_def s_def df) (simp add: w_def ex_world_def no_fault_def only_data_def)
  moreover have "list_all (\<lambda>(k, t). encodable (interp (world s)) (JObj t)) (tasks s)"
    by (simp add: s_def encodable_def int_str_small)
  ultimately have "persist s =
    (Inr (), s\<lparr>world := (world s)\<lparr>files := (files (world s))
       (DATA_FILE (world s) :=
          File (JsonDoc (JArr (map JObj (map (\<lambda>k. the (map_of (tasks s) k))
            (sort (map fst (tasks s)))))))) \<rparr>\<rparr>)"
    by (rule persist_ok)
  then have "files (world (snd (persist s))) ex_data =
      File (JsonDoc (JArr [JObj [(str ''id'', JInt 1)]]))"
    and "stdout (world (snd (persist s))) = []"
    by (simp_all add: s_def df) (simp add: w_def ex_world_def)
  moreover have "\<not> has_six_fields [(str ''id'', JInt 1)]"
    by (simp add: has_six_fields_def fieldnames_def)
  ultimately show ?thesis
    by (simp add: l) (simp add: s_def)
qed

text \<open>
  Claim C5, amended.  A task made by \<open>add_task\<close> has all six fields; when every task of the
  store has them, so has every task after a call of \<open>add_task\<close>, \<open>edit_task\<close> or
  \<open>delete_task\<close>; \<open>persist\<close>, when the write succeeds, writes the records of the store
  (a dict: its keys are distinct) and no others.  \<open>load_state\<close> asks of a record of the
  data file only that its \<open>id\<close> coerces to an integer: every record it stores is a
  record of the file, as it is, under the id its \<open>id\<close> field coerces to; every record of
  the file with a coercible id has that id in the store; and the record stored under an
  id is the last record of the file that coerces to it.
\<close>

theorem persisted_fields:
  "(\<exists>task s'. add_task title description done s = (Inr task, s') \<and> has_six_fields task) \<and>
   (list_all (\<lambda>(k, t). has_six_fields t) (tasks s) \<longrightarrow>
      list_all (\<lambda>(k, t). has_six_fields t) (tasks (exec c s))) \<and>
   (distinct (map fst (tasks s)) \<and> can_write (world s) (DATA_FILE (world s)) \<and>
    list_all (\<lambda>(k, t). encodable (interp (world s)) (JObj t)) (tasks s) \<longrightarrow>
      (\<exists>l. as_list (tasks s) = Inr l \<and>
         files (world (snd (persist s))) (DATA_FILE (world s)) =
           File (JsonDoc (JArr (map JObj l))) \<and>
         set l = snd ` set (tasks s))) \<and>
   (fst (load_tasks (DATA_FILE (world s0)) (world s0)) = Inr raw \<longrightarrow>
      list_all (\<lambda>(k, t). JObj t \<in> set raw \<and> coerce_id (interp (world s0)) (JObj t) = Inr k)
        (tasks (snd (load_state s0))) \<and>
      (JObj d \<in> set raw \<and> coerce_id (interp (world s0)) (JObj d) = Inr k \<longrightarrow>
         k \<in> fst ` set (tasks (snd (load_state s0)))) \<and>
      (raw = xs @ JObj d # zs \<and> coerce_id (interp (world s0)) (JObj d) = Inr k \<and>
       (\<forall>t \<in> set zs. coerce_id (interp (world s0)) t \<noteq> Inr k) \<longrightarrow>
         map_of (tasks (snd (load_state s0))) k = Some d))"
proof (intro conjI impI)
  show "\<exists>task s'. add_task title description done s = (Inr task, s') \<and> has_six_fields task"
    by (simp add: add_task_eq six_new_task)
next
  assume "list_all (\<lambda>(k, t). has_six_fields t) (tasks s)"
  then show "list_all (\<lambda>(k, t). has_six_fields t) (tasks (exec c s))"
    by (rule six_exec)
next
  assume a: "distinct (map fst (tasks s)) \<and> can_write (world s) (DATA_FILE (world s)) \<and>
    list_all (\<lambda>(k, t). encodable (interp (world s)) (JObj t)) (tasks s)"
  define l where "l = map (\<lambda>k. the (map_of (tasks s) k)) (sort (map fst (tasks s)))"
  have "persist s = (Inr (), s\<lparr>world := (world s)\<lparr>files := (files (world s))
       (DATA_FILE (world s) := File (JsonDoc (JArr (map JObj l))))\<rparr>\<rparr>)"
    unfolding l_def using a by (intro persist_ok) simp_all
  then have "files (world (snd (persist s))) (DATA_FILE (world s)) =
      File (JsonDoc (JArr (map JObj l)))"
    by simp
  moreover have "set l = snd ` set (tasks s)"
    unfolding l_def using a by (intro sorted_values_set) simp
  moreover have "as_list (tasks s) = Inr l"
    by (simp add: as_list_eq l_def)
  ultimately show "\<exists>l. as_list (tasks s) = Inr l \<and>
      files (world (snd (persist s))) (DATA_FILE (world s)) =
        File (JsonDoc (JArr (map JObj l))) \<and> set l = snd ` set (tasks s)"
    by blast
next
  assume r: "fst (load_tasks (DATA_FILE (world s0)) (world s0)) = Inr raw"
  obtain w1 where lt: "load_tasks (DATA_FILE (world s0)) (world s0) = (Inr raw, w1)"
    using r by (cases "load_tasks (DATA_FILE (world s0)) (world s0)") simp
  have ts: "tasks (snd (load_state s0)) = fold (load_step (interp (world s0))) raw []"
    by (simp add: load_state_eq [OF lt] recalc_tasks)
  show "list_all (\<lambda>(k, t). JObj t \<in> set raw \<and> coerce_id (interp (world s0)) (JObj t) = Inr k)
      (tasks (snd (load_state s0)))"
    using fold_load_step_from_raw [of "interp (world s0)" raw "[]"]
    by (auto simp: ts list_all_iff)
  show "k \<in> fst ` set (tasks (snd (load_state s0)))"
    if "JObj d \<in> set raw \<and> coerce_id (interp (world s0)) (JObj d) = Inr k"
    unfolding ts using that fold_load_step_stored [of d raw "interp (world s0)" k "[]"] by simp
  show "map_of (tasks (snd (load_state s0))) k = Some d"
    if "raw = xs @ JObj d # zs \<and> coerce_id (interp (world s0)) (JObj d) = Inr k \<and>
       (\<forall>t \<in> set zs. coerce_id (interp (world s0)) t \<noteq> Inr k)"
    unfolding ts using that fold_load_step_last [of "interp (world s0)" d k zs xs "[]"] by blast
qed

theorem persisted_fields_witness:
  "list_all (\<lambda>(k, t). has_six_fields t) (tasks ex_store12) \<and>
   list_all (\<lambda>(k, t). has_six_fields t)
     (tasks (exec (Edit 1 (str ''uno'') (str ''hecho'') True) ex_store12)) \<and>
   (\<exists>l. files (world (snd (persist ex_store12))) ex_data = File (JsonDoc (JArr (map JObj l))) \<and>
      set l = {ex_task 1 ''one'', ex_task 2 ''two''}) \<and>
   list_all (\<lambda>(k, t). JObj t \<in> {JObj (ex_task 1 ''one''), JObj (ex_task 2 ''two'')} \<and>
       coerce_id (interp (world ex_start12)) (JObj t) = Inr k)
     (tasks (snd (load_state ex_start12))) \<and>
   1 \<in> fst ` set (tasks (snd (load_state ex_start12))) \<and>
   map_of (tasks (snd (load_state ex_start12))) 1 = Some (ex_task 1 ''one'')"
proof -
  have six: "list_all (\<lambda>(k, t). has_six_fields t) (tasks ex_store12)"
    by (simp add: ex_store12_def has_six_fields_def fieldnames_def ex_task_def)
  have ds: "distinct (map fst (tasks ex_store12))"
    by (simp add: ex_store12_def)
  have wr: "can_write (world ex_store12) (DATA_FILE (world ex_store12))"
    by (simp add: ex_store12_def can_write_def) (simp add: ex_world_def no_fault_def no_files_def)
  have enc: "list_all (\<lambda>(k, t). encodable (interp (world ex_store12)) (JObj t)) (tasks ex_store12)"
    by (rule ex_enc12)
  have ld: "fst (load_tasks (DATA_FILE (world ex_start12)) (world ex_start12)) =
      Inr [JObj (ex_task 1 ''one''), JObj (ex_task 2 ''two'')]"
    by (simp add: ex_start12_def ex_load_tasks12)
  have sp: "[JObj (ex_task 1 ''one''), JObj (ex_task 2 ''two'')] =
      [] @ JObj (ex_task 1 ''one'') # [JObj (ex_task 2 ''two'')]"
    by simp
  have co: "coerce_id (interp (world ex_start12)) (JObj (ex_task 1 ''one'')) = Inr 1"
    by (rule coerce_ex_task)
  have la: "\<forall>t \<in> set [JObj (ex_task 2 ''two'')]. coerce_id (interp (world ex_start12)) t \<noteq> Inr 1"
    by (simp add: coerce_ex_task)
  have df: "DATA_FILE (world ex_store12) = ex_data"
    by (simp add: ex_store12_def)
  have img: "snd ` set (tasks ex_store12) = {ex_task 1 ''one'', ex_task 2 ''two''}"
    by (simp add: ex_store12_def)
  show ?thesis
    using persisted_fields [where s = ex_store12 and title = "str ''x''"
        and description = "str ''y''" and ?done = False
        and c = "Edit 1 (str ''uno'') (str ''hecho'') True" and ?s0.0 = ex_start12
        and raw = "[JObj (ex_task 1 ''one''), JObj (ex_task 2 ''two'')]"
        and d = "ex_task 1 ''one''" and k = 1 and xs = "[]"
        and zs = "[JObj (ex_task 2 ''two'')]"]
      six ds wr enc ld sp co la
    unfolding df img by auto
qed

section \<open>Exceptions that leave the core\<close>

text \<open>
  Claim C6 says that no operation of the core lets an exception out, failures of the
  creation of the export directory included.  When \<open>os.makedirs\<close> is refused, both
  exports raise the \<open>OSError\<close> to their caller.
\<close>

theorem export_raises_without_directory:
  "fst (export_csv (init_state (ex_world no_files no_mkdir))) = Inl OSError \<and>
   fst (export_json (init_state (ex_world no_files no_mkdir))) = Inl OSError"
  using ex_no_mkdir by (simp add: export_csv_mkdir_fails export_json_mkdir_fails)

text \<open>
  Claim C6, amended.  \<open>load_state\<close>, \<open>add_task\<close>, \<open>edit_task\<close>, \<open>delete_task\<close> and
  \<open>persist\<close> return normally in every state and every world; an exception in the
  \<open>try\<close> of \<open>save_tasks\<close> or of \<open>load_tasks\<close> becomes one printed message, and the
  function returns.  A failure to create the export directory leaves \<open>export_json\<close>
  and \<open>export_csv\<close> as an exception; once the directory is there, \<open>export_json\<close>
  returns normally.
\<close>

theorem core_exceptions:
  "fst (load_state s) = Inr () \<and>
   (\<exists>task. fst (add_task title description done s) = Inr task) \<and>
   (\<exists>b. fst (edit_task task_id title description done s) = Inr b) \<and>
   (\<exists>b. fst (delete_task task_id s) = Inr b) \<and>
   fst (persist s) = Inr () \<and>
   (\<forall>e w1. save_tasks_try path l w = (Inl e, w1) \<longrightarrow>
      save_tasks path l w = (Inr (), w1\<lparr>stdout := stdout w1 @ [msg_write_error w1 path e]\<rparr>)) \<and>
   (\<forall>e w1. path_exists w path \<and> load_tasks_try path w = (Inl e, w1) \<longrightarrow>
      load_tasks path w =
        (Inr [], w1\<lparr>stdout := stdout w1 @
           [if e = JSONDecodeError then msg_corrupt path else msg_read_error w1 path e]\<rparr>)) \<and>
   (\<forall>e. fst (ensure_export_dir (world s)) = Inl e \<longrightarrow>
      fst (export_json s) = Inl e \<and> fst (export_csv s) = Inl e) \<and>
   (fst (ensure_export_dir (world s)) = Inr () \<longrightarrow> (\<exists>p. fst (export_json s) = Inr p))"
proof (intro conjI allI impI)
  show "fst (load_state s) = Inr ()" by (rule load_state_returns)
  show "\<exists>task. fst (add_task title description done s) = Inr task"
    by (simp add: add_task_eq)
  show "\<exists>b. fst (edit_task task_id title description done s) = Inr b"
    by (rule edit_task_returns)
  show "\<exists>b. fst (delete_task task_id s) = Inr b" by (rule delete_task_returns)
  show "fst (persist s) = Inr ()" by (rule persist_returns)
  show "save_tasks path l w = (Inr (), w1\<lparr>stdout := stdout w1 @ [msg_write_error w1 path e]\<rparr>)"
    if "save_tasks_try path l w = (Inl e, w1)" for e w1
    using that by (simp add: save_tasks_def print_def)
  show "load_tasks path w =
        (Inr [], w1\<lparr>stdout := stdout w1 @
           [if e = JSONDecodeError then msg_corrupt path else msg_read_error w1 path e]\<rparr>)"
    if "path_exists w path \<and> load_tasks_try path w = (Inl e, w1)" for e w1
    using that by (simp add: load_tasks_def print_def)
  show "fst (export_json s) = Inl e" if "fst (ensure_export_dir (world s)) = Inl e" for e
    using that by (rule export_json_mkdir_fails)
  show "fst (export_csv s) = Inl e" if "fst (ensure_export_dir (world s)) = Inl e" for e
    using that by (rule export_csv_mkdir_fails)
  show "\<exists>p. fst (export_json s) = Inr p" if "fst (ensure_export_dir (world s)) = Inr ()"
    using that by (rule export_json_mkdir_ok)
qed

theorem core_exceptions_witness:
  "save_tasks ex_data [] (ex_world no_files no_write) =
     (Inr (), (ex_world no_files no_write)
        \<lparr>stdout := [msg_write_error (ex_world no_files no_write) ex_data OSError]\<rparr>) \<and>
   load_tasks ex_data (ex_world (only_data NotJson) no_fault) =
     (Inr [], (ex_world (only_data NotJson) no_fault)\<lparr>stdout := [msg_corrupt ex_data]\<rparr>) \<and>
   fst (export_json (init_state (ex_world no_files no_mkdir))) = Inl OSError \<and>
   (\<exists>p. fst (export_json ex_fresh) = Inr p)"
proof -
  have a: "save_tasks_try ex_data [] (ex_world no_files no_write) =
      (Inl OSError, ex_world no_files no_write)"
    by (simp add: save_tasks_try_def open_write_def) (simp add: ex_world_def no_write_def)
  have b: "path_exists (ex_world (only_data NotJson) no_fault) ex_data \<and>
      load_tasks_try ex_data (ex_world (only_data NotJson) no_fault) =
        (Inl JSONDecodeError, ex_world (only_data NotJson) no_fault)"
    by (simp add: path_exists_def load_tasks_try_def open_read_def ex_world_def only_data_def
        no_fault_def json_load_def)
  have c: "fst (ensure_export_dir (world ex_fresh)) = Inr ()"
    by (simp add: ensure_export_dir_def makedirs_def)
      (simp add: ex_world_def no_fault_def no_files_def)
  have s0: "stdout (ex_world fs flt) = []" for fs flt
    by (simp add: ex_world_def)
  show ?thesis
    using
      core_exceptions [of ex_fresh "[]" "[]" False 0 ex_data "[]" "ex_world no_files no_write"]
      core_exceptions [of "init_state (ex_world no_files no_mkdir)" "[]" "[]" False 0 ex_data "[]"
        "ex_world (only_data NotJson) no_fault"]
      a b c ex_no_mkdir
    by (simp add: s0)
qed

subsection \<open>A row that cannot be written\<close>

lemma export_csv_raises:
  assumes mk: "fault (world s) MakeDirs (EXPORT_DIR (world s)) = None"
      "\<forall>c. files (world s) (EXPORT_DIR (world s)) \<noteq> File c"
    and path: "path = path_join (EXPORT_DIR (world s))
        (str ''tasks_'' @ strftime (clock (world s) (ticks (world s))) @ str ''.csv'')"
    and wr: "can_write (world s) path"
    and rows: "rows = map csv_row (map (\<lambda>k. the (map_of (tasks s) k)) (sort (map fst (tasks s))))"
    and err: "first_error (map (row_error (interp (world s))) rows) = Some e"
  shows "export_csv s =
      (Inl e, s\<lparr>world := (world s)\<lparr>files := (files (world s))
          (EXPORT_DIR (world s) := Dir, path := File Truncated),
        ticks := Suc (ticks (world s))\<rparr>\<rparr>)"
proof -
  define w where "w = world s"
  define d where "d = EXPORT_DIR w"
  define w1 where "w1 = w\<lparr>files := (files w)(d := Dir)\<rparr>"
  define w2 where "w2 = w1\<lparr>ticks := Suc (ticks w1)\<rparr>"
  define w3 where "w3 = w2\<lparr>files := (files w2)(path := File Truncated)\<rparr>"
  have pd: "path \<noteq> d"
    unfolding path d_def w_def by (rule path_join_neq) (simp_all add: str_def)
  have m: "ensure_export_dir w = (Inr (), w1)"
    using mk by (simp add: ensure_export_dir_def makedirs_ok w_def w1_def d_def)
  have ts: "timestamp w1 = (strftime (clock w (ticks w)), w2)"
    by (simp add: timestamp_eq w1_def w2_def)
  have p2: "path_join (EXPORT_DIR w2) (str ''tasks_'' @ strftime (clock w (ticks w)) @ str ''.csv'') = path"
    by (simp add: path w_def w2_def w1_def)
  have ow: "open_write path w2 = (Inr (), w3)"
    using wr pd by (auto simp: open_write_def can_write_def w_def w1_def w2_def w3_def
        split: node.splits)
  have "first_error (None # map (row_error (interp w3)) rows) = Some e"
    using err by (simp add: w_def w1_def w2_def w3_def)
  then have cw: "csv_write path fieldnames rows w3 = (Inl e, w3)"
    using wr by (simp add: csv_write_def can_write_def fieldnames_ok w_def w1_def w2_def
        w3_def)
  have rows': "map (csv_row \<circ> (\<lambda>k. the (map_of (tasks s) k))) (sort (map fst (tasks s))) = rows"
    by (simp add: rows)
  have "export_csv s = (Inl e, s\<lparr>world := w3\<rparr>)"
    by (simp add: export_csv_def m ts p2 ow as_list_eq rows' cw Let_def flip: w_def)
  moreover have "w3 = w\<lparr>files := (files w)(d := Dir, path := File Truncated),
        ticks := Suc (ticks w)\<rparr>"
    by (simp add: w3_def w2_def w1_def)
  ultimately show ?thesis
    by (simp add: w_def d_def)
qed

lemma ex_row_sur: "row_error ip (csv_row ex_rec_sur) = Some UnicodeEncodeError"
  by (simp add: row_error_def csv_row_def fieldnames_def ex_rec_sur_def int_str_small
      cell_has_surrogate_def surrogate_free_def)

lemma ex_export_sur:
  "export_csv (snd (load_state ex_start_sur)) =
     (Inl UnicodeEncodeError,
      (snd (load_state ex_start_sur))\<lparr>world := (world (snd (load_state ex_start_sur)))
        \<lparr>files := (files (world (snd (load_state ex_start_sur))))
           (EXPORT_DIR (world (snd (load_state ex_start_sur))) := Dir,
            ex_csv_path := File Truncated),
         ticks := Suc (ticks (world (snd (load_state ex_start_sur))))\<rparr>\<rparr>)"
proof -
  define s where "s = snd (load_state ex_start_sur)"
  have s: "s = \<lparr>tasks = [(1, ex_rec_sur)], next_id = 2,
        world = ex_world (only_data (JsonDoc (JArr [JObj ex_rec_sur]))) no_fault\<rparr>"
    by (simp add: s_def ex_load_sur)
  have ed: "EXPORT_DIR (world s) = str ''app/exports''"
    by (simp add: s EXPORT_DIR_def ex_world_def path_join_def str_def)
  have nd: "str ''app/exports'' \<noteq> ex_data"
    by (simp add: ex_data_def)
  have mk: "fault (world s) MakeDirs (EXPORT_DIR (world s)) = None"
    "\<forall>c. files (world s) (EXPORT_DIR (world s)) \<noteq> File c"
    unfolding ed using nd by (simp_all add: s ex_world_def no_fault_def only_data_def)
  have p: "ex_csv_path = path_join (EXPORT_DIR (world s))
        (str ''tasks_'' @ strftime (clock (world s) (ticks (world s))) @ str ''.csv'')"
    by (simp add: s ex_world_def EXPORT_DIR_def path_join_def ex_csv_path_def str_def)
  have np: "ex_csv_path \<noteq> ex_data"
    by (simp add: ex_csv_path_def ex_data_def)
  have wr: "can_write (world s) ex_csv_path"
    using np by (simp add: can_write_def s ex_world_def no_fault_def only_data_def)
  have rows: "[csv_row ex_rec_sur] =
      map csv_row (map (\<lambda>k. the (map_of (tasks s) k)) (sort (map fst (tasks s))))"
    by (simp add: s)
  have err: "first_error (map (row_error (interp (world s))) [csv_row ex_rec_sur]) =
      Some UnicodeEncodeError"
    by (simp add: ex_row_sur)
  show ?thesis
    unfolding s_def [symmetric] using mk p wr rows err by (rule export_csv_raises)
qed

section \<open>The CSV export\<close>

text \<open>
  Claim C8 says that for every store state \<open>export_csv\<close> writes the header and one row
  per task.  It does not when a cell cannot be written.  The data file
  \<open>[{"id": 1, "title": "\ud800"}]\<close> loads into a store with task 1, whose title is a lone
  surrogate; on that store \<open>export_csv\<close> creates the export file and then raises
  \<open>UnicodeEncodeError\<close> to its caller, and the file is left without the row of task 1.
\<close>

theorem export_csv_raises_on_surrogate:
  "tasks (snd (load_state ex_start_sur)) = [(1, ex_rec_sur)] \<and>
   fst (export_csv (snd (load_state ex_start_sur))) = Inl UnicodeEncodeError \<and>
   files (world (snd (export_csv (snd (load_state ex_start_sur))))) ex_csv_path =
     File Truncated"
proof -
  have "tasks (snd (load_state ex_start_sur)) = [(1, ex_rec_sur)]"
    unfolding ex_load_sur by simp
  moreover have "fst (export_csv (snd (load_state ex_start_sur))) = Inl UnicodeEncodeError"
    unfolding ex_export_sur by simp
  moreover have "files (world (snd (export_csv (snd (load_state ex_start_sur))))) ex_csv_path =
      File Truncated"
    unfolding ex_export_sur by simp
  ultimately show ?thesis
    by simp
qed

text \<open>
  Claim C8, amended.  Take any store (a dict: its keys are distinct) whose rows can all be
  written (no cell that is a string with a lone surrogate, no integer beyond the
  interpreter's digit limit in a cell), in a world where the export directory can be
  created and the export file can be written.  Then \<open>export_csv\<close> returns the path of
  the file and leaves the store as it is; the file holds the header
  \<open>id,date,title,description,done,updated_at\<close> and one row per task, the rows following
  the ids in strictly ascending order; the cells of a row are the values the task has for
  the six fields, in the order of the header, with the empty string where the task has no
  such field.
\<close>

theorem export_csv_content:
  assumes "distinct (map fst (tasks s))"
    and "fault (world s) MakeDirs (EXPORT_DIR (world s)) = None"
    and "\<forall>c. files (world s) (EXPORT_DIR (world s)) \<noteq> File c"
    and "path = path_join (EXPORT_DIR (world s))
        (str ''tasks_'' @ strftime (clock (world s) (ticks (world s))) @ str ''.csv'')"
    and "can_write (world s) path"
    and "list_all (\<lambda>(k, t). row_error (interp (world s)) (csv_row t) = None) (tasks s)"
  shows "\<exists>s' rows ks. export_csv s = (Inr path, s') \<and>
      tasks s' = tasks s \<and> next_id s' = next_id s \<and>
      files (world s') path =
        File (CsvDoc [str ''id'', str ''date'', str ''title'', str ''description'',
                      str ''done'', str ''updated_at''] rows) \<and>
      sorted_wrt (<) ks \<and> set ks = fst ` set (tasks s) \<and>
      length ks = length (tasks s) \<and> length rows = length ks \<and>
      (\<forall>i < length ks. \<exists>t. map_of (tasks s) (ks ! i) = Some t \<and>
         rows ! i = map (\<lambda>f. case map_of t f of None \<Rightarrow> JStr [] | Some v \<Rightarrow> v)
           [str ''id'', str ''date'', str ''title'', str ''description'',
            str ''done'', str ''updated_at''])"
proof -
  define ks where "ks = sort (map fst (tasks s))"
  define rows where "rows = map csv_row (map (\<lambda>k. the (map_of (tasks s) k)) ks)"
  define s' where "s' = s\<lparr>world := (world s)\<lparr>files := (files (world s))
          (EXPORT_DIR (world s) := Dir, path := File (CsvDoc fieldnames rows)),
        ticks := Suc (ticks (world s))\<rparr>\<rparr>"
  have "list_all (\<lambda>row. row_error (interp (world s)) row = None) rows"
    unfolding rows_def ks_def using assms(6) by (rule rows_encodable)
  with assms(2-5) have e: "export_csv s = (Inr path, s')"
    unfolding s'_def by (intro export_csv_ok) (simp_all add: rows_def ks_def)
  have f: "files (world s') path =
        File (CsvDoc [str ''id'', str ''date'', str ''title'', str ''description'',
                      str ''done'', str ''updated_at''] rows)"
    by (simp add: s'_def fieldnames_def)
  have k: "sorted_wrt (<) ks" "set ks = fst ` set (tasks s)" "length ks = length (tasks s)"
    using assms(1) by (simp_all add: ks_def strict_sorted_iff)
  have r: "\<exists>t. map_of (tasks s) (ks ! i) = Some t \<and>
         rows ! i = map (\<lambda>f. case map_of t f of None \<Rightarrow> JStr [] | Some v \<Rightarrow> v)
           [str ''id'', str ''date'', str ''title'', str ''description'',
            str ''done'', str ''updated_at'']" if "i < length ks" for i
  proof -
    have "ks ! i \<in> set (map fst (tasks s))"
      using that k(2) nth_mem [OF that] by simp
    then obtain t where t: "map_of (tasks s) (ks ! i) = Some t"
      by (metis map_of_eq_None_iff not_Some_eq set_map)
    have "rows ! i = csv_row t"
      using that t by (simp add: rows_def)
    with t show ?thesis
      by (simp add: csv_row_def fieldnames_def)
  qed
  have "tasks s' = tasks s" "next_id s' = next_id s" "length rows = length ks"
    by (simp_all add: s'_def rows_def)
  with e f k r show ?thesis by blast
qed

theorem export_csv_content_witness:
  "list_all (\<lambda>(k, t). row_error (interp (world ex_store_partial)) (csv_row t) = None)
     (tasks ex_store_partial) \<and>
   (\<exists>s' rows. export_csv ex_store_partial = (Inr ex_csv_path, s') \<and>
     files (world s') ex_csv_path =
       File (CsvDoc [str ''id'', str ''date'', str ''title'', str ''description'',
                     str ''done'', str ''updated_at''] rows) \<and>
     rows =
       [[JInt 1, JStr (str ''2024-04-30T09:00:00''), JStr (str ''one''), JStr (str ''to do''),
         JBool False, JStr (str ''2024-04-30T09:00:00'')],
        [JInt 2, JStr [], JStr (str ''first''), JStr [], JStr [], JStr []]])"
proof -
  have d: "distinct (map fst (tasks ex_store_partial))"
    by (simp add: ex_store_partial_def)
  have mk: "fault (world ex_store_partial) MakeDirs (EXPORT_DIR (world ex_store_partial)) = None"
    "\<forall>c. files (world ex_store_partial) (EXPORT_DIR (world ex_store_partial)) \<noteq> File c"
    by (simp_all add: ex_store_partial_def ex_world_def no_fault_def no_files_def)
  have wr: "can_write (world ex_store_partial) ex_csv_path"
    by (simp add: can_write_def ex_store_partial_def ex_world_def no_fault_def no_files_def)
  have enc: "list_all (\<lambda>(k, t). row_error (interp (world ex_store_partial)) (csv_row t) = None)
      (tasks ex_store_partial)"
    by (simp add: ex_store_partial_def csv_row_def fieldnames_def row_error_def
        cell_has_surrogate_def int_str_small ex_rec_num_def ex_task_def)
      (simp add: surrogate_free_def)
  from export_csv_content [OF d mk ex_csv_path_eq [symmetric] wr enc]
  obtain s' rows ks where e: "export_csv ex_store_partial = (Inr ex_csv_path, s')"
    and f: "files (world s') ex_csv_path =
        File (CsvDoc [str ''id'', str ''date'', str ''title'', str ''description'',
                      str ''done'', str ''updated_at''] rows)"
    and k: "sorted_wrt (<) ks" "set ks = fst ` set (tasks ex_store_partial)"
    and l: "length ks = length (tasks ex_store_partial)" "length rows = length ks"
    and r: "\<forall>i < length ks. \<exists>t. map_of (tasks ex_store_partial) (ks ! i) = Some t \<and>
         rows ! i = map (\<lambda>f. case map_of t f of None \<Rightarrow> JStr [] | Some v \<Rightarrow> v)
           [str ''id'', str ''date'', str ''title'', str ''description'',
            str ''done'', str ''updated_at'']"
    by blast
  have "set ks = {1, 2}"
    using k(2) by (auto simp: ex_store_partial_def)
  with k(1) have ks: "ks = [1, 2]"
    by (intro sorted_distinct_set_unique) (auto simp: strict_sorted_iff)
  from r [rule_format, of 0] r [rule_format, of 1]
  have "rows ! 0 = [JInt 1, JStr (str ''2024-04-30T09:00:00''), JStr (str ''one''),
        JStr (str ''to do''), JBool False, JStr (str ''2024-04-30T09:00:00'')]"
    and "rows ! 1 = [JInt 2, JStr [], JStr (str ''first''), JStr [], JStr [], JStr []]"
    by (auto simp: ks ex_store_partial_def ex_task_def ex_rec_num_def)
  moreover have "length rows = 2"
    using l ks by simp
  ultimately have "rows =
       [[JInt 1, JStr (str ''2024-04-30T09:00:00''), JStr (str ''one''), JStr (str ''to do''),
         JBool False, JStr (str ''2024-04-30T09:00:00'')],
        [JInt 2, JStr [], JStr (str ''first''), JStr [], JStr [], JStr []]]"
    by (auto simp: list_eq_iff_nth_eq less_Suc_eq numeral_2_eq_2)
  with e f enc show ?thesis by blast
qed

end
